theory Spec2Isabelle
  imports Main "HOL-Library.AList"
begin

section \<open>Multiplayer tic-tac-toe server: data model\<close>

text \<open>
  The server (\<^verbatim>\<open>src/server.js\<close>) keeps two PostgreSQL tables, \<^verbatim>\<open>game_rooms\<close> and
  \<^verbatim>\<open>players\<close>, attaches two fields (\<^verbatim>\<open>roomCode\<close>, \<^verbatim>\<open>playerSymbol\<close>) to every socket and
  schedules a cleanup timer on disconnect. Rows are records, tables are lists of rows in
  insertion order, JavaScript strings are HOL strings, and a value that may be
  \<^verbatim>\<open>null\<close> or \<^verbatim>\<open>undefined\<close> is an option. The columns \<^verbatim>\<open>id\<close>, \<^verbatim>\<open>created_at\<close>,
  \<^verbatim>\<open>updated_at\<close> and \<^verbatim>\<open>joined_at\<close> are never read by the server and are left out.
\<close>

record game_room =
  room_code :: string
  player1_id :: "string option"
  player2_id :: "string option"
  current_player :: string
  board :: string
  game_status :: string
  winner :: "string option"

text \<open>The \<^verbatim>\<open>room_code\<close> column of \<^verbatim>\<open>players\<close> is the field \<open>p_room_code\<close>.\<close>

record player =
  socket_id :: string
  p_room_code :: string
  symbol :: string
  name :: string
  connected :: bool

text \<open>The fields the handlers attach to a socket object; \<open>None\<close> is \<^verbatim>\<open>undefined\<close>.\<close>

record socket =
  roomCode :: "string option"
  playerSymbol :: "string option"

text \<open>
  The whole server state: both tables, the live connections
  (\<^verbatim>\<open>io.sockets.sockets\<close>) with their attached fields, and the room codes of the
  cleanup timers that are pending.
\<close>

record world =
  game_rooms :: "game_room list"
  players :: "player list"
  sockets :: "(string \<times> socket) list"
  timers :: "string list"

section \<open>Board functions\<close>

text \<open>JavaScript truthiness of a value that is a string, \<^verbatim>\<open>null\<close> or \<^verbatim>\<open>undefined\<close>.\<close>

definition truthy :: "string option \<Rightarrow> bool" where
  "truthy v = (case v of None \<Rightarrow> False | Some s \<Rightarrow> s \<noteq> [])"

text \<open>\<^verbatim>\<open>board[i]\<close>: \<^verbatim>\<open>undefined\<close> (\<open>None\<close>) past the end of the array. The array
  parameter \<^verbatim>\<open>board\<close> of the source is called \<open>cells\<close> below, \<open>board\<close> being the column.\<close>

definition at :: "string list \<Rightarrow> nat \<Rightarrow> string option" where
  "at xs i = (if i < length xs then Some (xs ! i) else None)"

definition boardToArray :: "string \<Rightarrow> string list" where
  "boardToArray boardString = map (\<lambda>ch. if ch = CHR '' '' then [] else [ch]) boardString"

definition arrayToBoard :: "string list \<Rightarrow> string" where
  "arrayToBoard boardArray = concat (map (\<lambda>cell. if cell = [] then '' '' else cell) boardArray)"

definition winPatterns :: "(nat \<times> nat \<times> nat) list" where
  "winPatterns =
     [(0, 1, 2), (3, 4, 5), (6, 7, 8),
      (0, 3, 6), (1, 4, 7), (2, 5, 8),
      (0, 4, 8), (2, 4, 6)]"

text \<open>The \<^verbatim>\<open>for\<close> loop of \<^verbatim>\<open>checkWinner\<close> over the patterns that are left.\<close>

fun check_patterns :: "(nat \<times> nat \<times> nat) list \<Rightarrow> string list \<Rightarrow> string option" where
  "check_patterns [] cells = None"
| "check_patterns ((a, b, c) # ps) cells =
     (if truthy (at cells a) \<and> at cells a = at cells b \<and> at cells a = at cells c
      then at cells a
      else check_patterns ps cells)"

text \<open>\<open>None\<close> is \<^verbatim>\<open>null\<close>; a draw is the string \<^verbatim>\<open>'draw'\<close>.\<close>

definition checkWinner :: "string list \<Rightarrow> string option" where
  "checkWinner cells =
     (case check_patterns winPatterns cells of
        Some s \<Rightarrow> Some s
      | None \<Rightarrow> if list_all (\<lambda>cell. cell \<noteq> []) cells then Some ''draw'' else None)"

text \<open>
  The words of the specification, for comparison with \<open>checkWinner\<close>: the eight
  standard triples are the three rows, the three columns and the two diagonals of the
  3 by 3 grid; a triple is uniform when its three cells are equal, and completed when it
  is uniform and its cells are not empty.
\<close>

definition rows :: "(nat \<times> nat \<times> nat) list" where
  "rows = map (\<lambda>r. (3 * r, 3 * r + 1, 3 * r + 2)) [0, 1, 2]"

definition columns :: "(nat \<times> nat \<times> nat) list" where
  "columns = map (\<lambda>c. (c, c + 3, c + 6)) [0, 1, 2]"

definition diagonals :: "(nat \<times> nat \<times> nat) list" where
  "diagonals = [(0, 4, 8), (2, 4, 6)]"

definition uniform :: "string list \<Rightarrow> nat \<times> nat \<times> nat \<Rightarrow> bool" where
  "uniform b p = (case p of (i, j, k) \<Rightarrow> b ! i = b ! j \<and> b ! i = b ! k)"

definition completed :: "string list \<Rightarrow> nat \<times> nat \<times> nat \<Rightarrow> bool" where
  "completed b p = (uniform b p \<and> b ! fst p \<noteq> [])"

definition triples :: "(nat \<times> nat \<times> nat) list" where
  "triples = rows @ columns @ diagonals"

definition well_formed_board :: "string list \<Rightarrow> bool" where
  "well_formed_board b = (length b = 9 \<and> set b \<subseteq> {[], ''X'', ''O''})"

section \<open>Queries\<close>

text \<open>
  Every \<^verbatim>\<open>await pool.query(...)\<close> may throw: the datastore is unreachable, or it
  rejects the statement (as PostgreSQL does for a player name longer than the 100
  characters of its column). A handler takes a \<open>fault\<close>: \<open>Some k\<close> when the query it
  issues as number \<open>k\<close> (counting from 0) throws, \<open>None\<close> when the datastore answers
  every query. A statement that is answered acts on the tables as defined below.
\<close>

type_synonym fault = "nat option"

text \<open>\<^verbatim>\<open>SELECT * FROM game_rooms WHERE room_code = $1\<close>\<close>

definition select_room :: "string \<Rightarrow> game_room list \<Rightarrow> game_room list" where
  "select_room code rooms = filter (\<lambda>r. room_code r = code) rooms"

text \<open>\<^verbatim>\<open>SELECT * FROM players WHERE room_code = $1 AND connected = true\<close>\<close>

definition select_connected :: "string \<Rightarrow> player list \<Rightarrow> player list" where
  "select_connected code ps = filter (\<lambda>p. p_room_code p = code \<and> connected p) ps"

text \<open>\<^verbatim>\<open>UPDATE game_rooms SET ... WHERE room_code = $n\<close>\<close>

definition update_rooms :: "string \<Rightarrow> (game_room \<Rightarrow> game_room) \<Rightarrow> game_room list \<Rightarrow> game_room list" where
  "update_rooms code f rooms = map (\<lambda>r. if room_code r = code then f r else r) rooms"

text \<open>
  \<^verbatim>\<open>INSERT INTO players (socket_id, room_code, symbol, name) VALUES ($1, $2, $3, $4)
  ON CONFLICT (socket_id) DO UPDATE SET room_code = $2, symbol = $3, name = $4, connected = true\<close>;
  a new row gets the column default \<^verbatim>\<open>connected = true\<close>.
\<close>

definition upsert_player :: "string \<Rightarrow> string \<Rightarrow> string \<Rightarrow> string \<Rightarrow> player list \<Rightarrow> player list" where
  "upsert_player sid code mark nm ps =
     (if sid \<in> set (map socket_id ps)
      then map (\<lambda>p. if socket_id p = sid
                     then p\<lparr>p_room_code := code, symbol := mark, name := nm, connected := True\<rparr>
                     else p) ps
      else ps @ [\<lparr>socket_id = sid, p_room_code = code, symbol = mark, name = nm, connected = True\<rparr>])"

text \<open>The row that \<^verbatim>\<open>INSERT INTO game_rooms (room_code) VALUES ($1)\<close> creates from the column defaults.\<close>

definition new_room :: "string \<Rightarrow> game_room" where
  "new_room code =
     \<lparr>room_code = code, player1_id = None, player2_id = None, current_player = ''X'',
      board = ''         '', game_status = ''waiting'', winner = None\<rparr>"

section \<open>Messages\<close>

record game_state =
  gs_roomCode :: string
  gs_board :: "string list"
  gs_currentPlayer :: string
  gs_gameStatus :: string
  gs_winner :: "string option"
  gs_players :: "player list"
  gs_lastMove :: "(int \<times> string) option"

datatype message =
    ErrorMsg string
  | RoomJoined game_state
  | GameUpdated game_state
  | GameReset game_state
  | PlayerInfo string bool
  | PlayerDisconnected string "string option"

text \<open>
  \<open>ToSocket sid m\<close> is \<^verbatim>\<open>socket.emit\<close> on the connection \<open>sid\<close>, \<open>ToRoom code m\<close> is
  \<^verbatim>\<open>io.to(code).emit\<close>, and \<open>ToOthers code sid m\<close> is \<^verbatim>\<open>socket.to(code).emit\<close> from the
  connection \<open>sid\<close>.
\<close>

datatype emission =
    ToSocket string message
  | ToRoom string message
  | ToOthers string string message

text \<open>The HTTP responses: a status code with an error text, or the JSON body.\<close>

datatype response =
    Created string
  | Failure nat string
  | RoomFound game_room "string list" "player list"

section \<open>Connections\<close>

text \<open>
  A connection that no handler has written to yet has both fields \<^verbatim>\<open>undefined\<close>. A
  connection is recorded in \<open>sockets\<close> from its first successful player insert until
  it disconnects.
\<close>

definition get_socket :: "world \<Rightarrow> string \<Rightarrow> socket" where
  "get_socket w sid =
     (case map_of (sockets w) sid of
        Some s \<Rightarrow> s
      | None \<Rightarrow> \<lparr>roomCode = None, playerSymbol = None\<rparr>)"

text \<open>\<^verbatim>\<open>io.sockets.sockets.get(id)\<close> finds a connection.\<close>

definition live :: "world \<Rightarrow> string \<Rightarrow> bool" where
  "live w sid = (map_of (sockets w) sid \<noteq> None)"

text \<open>\<^verbatim>\<open>!socket.roomCode || socket.roomCode !== roomCode\<close>\<close>

definition not_in_room :: "socket \<Rightarrow> string \<Rightarrow> bool" where
  "not_in_room s code = (\<not> truthy (roomCode s) \<or> roomCode s \<noteq> Some code)"

section \<open>Handlers\<close>

text \<open>
  \<^verbatim>\<open>sendPlayerInfo\<close> issues two queries, numbered \<open>k\<close> and \<open>k + 1\<close> in the handler that
  calls it; the result is \<open>None\<close> when one of them throws.
\<close>

definition sendPlayerInfo :: "fault \<Rightarrow> nat \<Rightarrow> string \<Rightarrow> world \<Rightarrow> emission list option" where
  "sendPlayerInfo fault k code w =
     (if fault = Some k then None
      else case select_room code (game_rooms w) of
        [] \<Rightarrow> Some []
      | room # _ \<Rightarrow>
          if fault = Some (k + 1) then None
          else Some (map (\<lambda>p. ToSocket (socket_id p)
                           (PlayerInfo (symbol p)
                              (symbol p = current_player room \<and> game_status room = ''playing'')))
                      (filter (\<lambda>p. live w (socket_id p))
                         (select_connected code (players w)))))"

text \<open>
  \<^verbatim>\<open>POST /api/create-room\<close>. \<open>gen n\<close> is what the call number \<open>n\<close> of
  \<^verbatim>\<open>generateRoomCode()\<close> returns (it draws from \<^verbatim>\<open>Math.random\<close>). The
  \<^verbatim>\<open>do ... while\<close> loop returns the last candidate and the attempts made, or \<open>None\<close>
  when its query throws.
\<close>

function generate_unique :: "fault \<Rightarrow> (nat \<Rightarrow> string) \<Rightarrow> game_room list \<Rightarrow> nat \<Rightarrow> (string \<times> nat) option" where
  "generate_unique fault gen rooms attempts =
     (if fault = Some attempts then None
      else if select_room (gen attempts) rooms = [] then Some (gen attempts, attempts + 1)
      else if attempts + 1 < 10 then generate_unique fault gen rooms (attempts + 1)
      else Some (gen attempts, attempts + 1))"
  by pat_completeness auto
termination
  by (relation "measure (\<lambda>(fault, gen, rooms, attempts). 10 - attempts)") auto

declare generate_unique.simps [simp del]

definition create_room :: "fault \<Rightarrow> (nat \<Rightarrow> string) \<Rightarrow> world \<Rightarrow> response \<times> world" where
  "create_room fault gen w =
     (case generate_unique fault gen (game_rooms w) 0 of
        None \<Rightarrow> (Failure 500 ''Failed to create room'', w)
      | Some (code, attempts) \<Rightarrow>
          if attempts \<ge> 10 then (Failure 500 ''Unable to generate unique room code'', w)
          else if fault = Some attempts then (Failure 500 ''Failed to create room'', w)
          else if select_room code (game_rooms w) \<noteq> [] then (Failure 500 ''Failed to create room'', w)
          else (Created code, w\<lparr>game_rooms := game_rooms w @ [new_room code]\<rparr>))"

text \<open>\<^verbatim>\<open>GET /api/room/:code\<close>\<close>

definition get_room :: "fault \<Rightarrow> string \<Rightarrow> world \<Rightarrow> response" where
  "get_room fault code w =
     (if fault = Some 0 then Failure 500 ''Failed to fetch room''
      else case select_room code (game_rooms w) of
        [] \<Rightarrow> Failure 404 ''Room not found''
      | room # _ \<Rightarrow>
          if fault = Some 1 then Failure 500 ''Failed to fetch room''
          else RoomFound room (boardToArray (board room)) (select_connected code (players w)))"

text \<open>The \<^verbatim>\<open>catch\<close> block of a socket handler: the error goes to the calling connection.\<close>

definition failed :: "string \<Rightarrow> string \<Rightarrow> world \<Rightarrow> emission list \<times> world" where
  "failed sid msg w = ([ToSocket sid (ErrorMsg msg)], w)"

text \<open>
  \<^verbatim>\<open>socket.on('join-room')\<close>; \<open>nm\<close> is the \<^verbatim>\<open>playerName\<close> of the message, \<open>None\<close> when
  it is absent. The handler is written in two parts: \<open>join_room\<close> is the handler up to
  its last write, and \<open>announce_join\<close> is the rest of it, from
  \<^verbatim>\<open>// Get updated room state\<close> on, which only reads and emits (queries 4 to 7).
  Reading \<^verbatim>\<open>rows[0]\<close> of an empty result throws a TypeError into the same
  \<^verbatim>\<open>catch\<close>.
\<close>

definition announce_join :: "fault \<Rightarrow> string \<Rightarrow> string \<Rightarrow> world \<Rightarrow> emission list" where
  "announce_join fault sid code w =
     (if fault = Some 4 \<or> fault = Some 5 then [ToSocket sid (ErrorMsg ''Failed to join room'')]
      else case select_room code (game_rooms w) of
        [] \<Rightarrow> [ToSocket sid (ErrorMsg ''Failed to join room'')]
      | updatedRoom # _ \<Rightarrow>
          let gameState =
                \<lparr>gs_roomCode = code,
                 gs_board = boardToArray (board updatedRoom),
                 gs_currentPlayer = current_player updatedRoom,
                 gs_gameStatus = game_status updatedRoom,
                 gs_winner = winner updatedRoom,
                 gs_players = select_connected code (players w),
                 gs_lastMove = None\<rparr> in
          case sendPlayerInfo fault 6 code w of
            None \<Rightarrow> [ToRoom code (RoomJoined gameState),
                     ToSocket sid (ErrorMsg ''Failed to join room'')]
          | Some infos \<Rightarrow> ToRoom code (RoomJoined gameState) # infos)"

definition join_room :: "fault \<Rightarrow> string \<Rightarrow> string \<Rightarrow> string option \<Rightarrow> world \<Rightarrow> emission list \<times> world" where
  "join_room fault sid code nm w =
     (let playerName = (case nm of None \<Rightarrow> ''Anonymous'' | Some n \<Rightarrow> n) in
      if fault = Some 0 then failed sid ''Failed to join room'' w
      else case select_room code (game_rooms w) of
        [] \<Rightarrow> ([ToSocket sid (ErrorMsg ''Room not found'')], w)
      | room # _ \<Rightarrow>
          if fault = Some 1 then failed sid ''Failed to join room'' w
          else let playersResult = select_connected code (players w) in
          if length playersResult \<ge> 2 then ([ToSocket sid (ErrorMsg ''Room is full'')], w)
          else let isFirstPlayer = (length playersResult = 0);
                   mark = (if isFirstPlayer then ''X'' else ''O'') in
          if fault = Some 2 then failed sid ''Failed to join room'' w
          else let w1 = w\<lparr>players := upsert_player sid code mark playerName (players w)\<rparr>;
                   w2 = w1\<lparr>sockets := AList.update sid
                           \<lparr>roomCode = Some code, playerSymbol = Some mark\<rparr> (sockets w1)\<rparr> in
          if fault = Some 3 then failed sid ''Failed to join room'' w2
          else let w3 = w2\<lparr>game_rooms :=
                           (if isFirstPlayer
                            then update_rooms code (\<lambda>r. r\<lparr>player1_id := Some sid\<rparr>) (game_rooms w2)
                            else update_rooms code
                                   (\<lambda>r. r\<lparr>player2_id := Some sid, game_status := ''playing''\<rparr>)
                                   (game_rooms w2))\<rparr> in
          (announce_join fault sid code w3, w3))"

text \<open>What the move handler writes into the \<^verbatim>\<open>winner\<close> column: \<^verbatim>\<open>winner === 'draw' ? null : winner\<close>.\<close>

definition stored_winner :: "string option \<Rightarrow> string option" where
  "stored_winner win = (if win = Some ''draw'' then None else win)"

text \<open>
  \<^verbatim>\<open>socket.on('make-move')\<close>, in three parts. \<open>moved room position mark\<close> is the row
  update that the sections \<^verbatim>\<open>// Make the move\<close> and \<^verbatim>\<open>// Check for winner\<close> compute
  from the room that was read and \<^verbatim>\<open>// Update database\<close> writes; \<open>announce_move\<close> is
  the rest of the handler after that write, which only reads and emits (queries 2 to 5);
  \<open>make_move\<close> is the validation and the write. The \<^verbatim>\<open>position\<close> of the message is
  taken to be an integer; \<open>mark\<close> is \<^verbatim>\<open>socket.playerSymbol\<close>, which the turn check
  compares with the \<^verbatim>\<open>current_player\<close> column (a string, so \<^verbatim>\<open>undefined\<close> never
  passes).
\<close>

definition moved :: "game_room \<Rightarrow> int \<Rightarrow> string \<Rightarrow> game_room \<Rightarrow> game_room" where
  "moved room position mark r =
     (let boardArray = (boardToArray (board room))[nat position := mark];
          newBoard = arrayToBoard boardArray;
          win = checkWinner boardArray;
          nextPlayer = (if mark = ''X'' then ''O'' else ''X'');
          gameStatus = (if truthy win then ''finished'' else ''playing'')
      in r\<lparr>board := newBoard, current_player := nextPlayer,
            game_status := gameStatus, winner := stored_winner win\<rparr>)"

definition announce_move :: "fault \<Rightarrow> string \<Rightarrow> string \<Rightarrow> int \<Rightarrow> string \<Rightarrow> world \<Rightarrow> emission list" where
  "announce_move fault sid code position mark w =
     (if fault = Some 2 \<or> fault = Some 3 then [ToSocket sid (ErrorMsg ''Failed to make move'')]
      else case select_room code (game_rooms w) of
        [] \<Rightarrow> [ToSocket sid (ErrorMsg ''Failed to make move'')]
      | updatedRoom # _ \<Rightarrow>
          let gameState =
                \<lparr>gs_roomCode = code,
                 gs_board = boardToArray (board updatedRoom),
                 gs_currentPlayer = current_player updatedRoom,
                 gs_gameStatus = game_status updatedRoom,
                 gs_winner = winner updatedRoom,
                 gs_players = select_connected code (players w),
                 gs_lastMove = Some (position, mark)\<rparr> in
          case sendPlayerInfo fault 4 code w of
            None \<Rightarrow> [ToRoom code (GameUpdated gameState),
                     ToSocket sid (ErrorMsg ''Failed to make move'')]
          | Some infos \<Rightarrow> ToRoom code (GameUpdated gameState) # infos)"

definition make_move :: "fault \<Rightarrow> string \<Rightarrow> string \<Rightarrow> int \<Rightarrow> world \<Rightarrow> emission list \<times> world" where
  "make_move fault sid code position w =
     (if not_in_room (get_socket w sid) code
      then ([ToSocket sid (ErrorMsg ''Not in this room'')], w)
      else if fault = Some 0 then failed sid ''Failed to make move'' w
      else case select_room code (game_rooms w) of
        [] \<Rightarrow> ([ToSocket sid (ErrorMsg ''Room not found'')], w)
      | room # _ \<Rightarrow>
          if game_status room \<noteq> ''playing''
          then ([ToSocket sid (ErrorMsg ''Game not in progress'')], w)
          else case playerSymbol (get_socket w sid) of
            None \<Rightarrow> ([ToSocket sid (ErrorMsg ''Not your turn'')], w)
          | Some mark \<Rightarrow>
              if current_player room \<noteq> mark
              then ([ToSocket sid (ErrorMsg ''Not your turn'')], w)
              else if position < 0 \<or> position > 8
                      \<or> at (boardToArray (board room)) (nat position) \<noteq> Some []
              then ([ToSocket sid (ErrorMsg ''Invalid move'')], w)
              else if fault = Some 1 then failed sid ''Failed to make move'' w
              else let w1 = w\<lparr>game_rooms :=
                               update_rooms code (moved room position mark) (game_rooms w)\<rparr>
              in (announce_move fault sid code position mark w1, w1))"

text \<open>
  \<^verbatim>\<open>socket.on('reset-game')\<close>: \<open>reset_game\<close> is the handler up to its write and
  \<open>announce_reset\<close> the rest (queries 1 to 4); the message it broadcasts has
  \<^verbatim>\<open>winner: null\<close>.
\<close>

definition announce_reset :: "fault \<Rightarrow> string \<Rightarrow> string \<Rightarrow> world \<Rightarrow> emission list" where
  "announce_reset fault sid code w =
     (if fault = Some 1 \<or> fault = Some 2 then [ToSocket sid (ErrorMsg ''Failed to reset game'')]
      else case select_room code (game_rooms w) of
        [] \<Rightarrow> [ToSocket sid (ErrorMsg ''Failed to reset game'')]
      | updatedRoom # _ \<Rightarrow>
          let gameState =
                \<lparr>gs_roomCode = code,
                 gs_board = boardToArray (board updatedRoom),
                 gs_currentPlayer = current_player updatedRoom,
                 gs_gameStatus = game_status updatedRoom,
                 gs_winner = None,
                 gs_players = select_connected code (players w),
                 gs_lastMove = None\<rparr> in
          case sendPlayerInfo fault 3 code w of
            None \<Rightarrow> [ToRoom code (GameReset gameState),
                     ToSocket sid (ErrorMsg ''Failed to reset game'')]
          | Some infos \<Rightarrow> ToRoom code (GameReset gameState) # infos)"

definition reset_game :: "fault \<Rightarrow> string \<Rightarrow> string \<Rightarrow> world \<Rightarrow> emission list \<times> world" where
  "reset_game fault sid code w =
     (if not_in_room (get_socket w sid) code
      then ([ToSocket sid (ErrorMsg ''Not in this room'')], w)
      else if fault = Some 0 then failed sid ''Failed to reset game'' w
      else let w1 = w\<lparr>game_rooms := update_rooms code
                         (\<lambda>r. r\<lparr>board := ''         '', current_player := ''X'',
                                game_status := ''playing'', winner := None\<rparr>)
                         (game_rooms w)\<rparr>
      in (announce_reset fault sid code w1, w1))"

text \<open>
  \<^verbatim>\<open>socket.on('disconnect')\<close>: the connection has left \<^verbatim>\<open>io.sockets.sockets\<close> when the
  handler runs; its fields stay readable. A failure of the update is only logged. The
  timer is recorded with the room code it will read from \<^verbatim>\<open>socket.roomCode\<close>, which no
  handler changes after the disconnect.
\<close>

definition disconnect :: "fault \<Rightarrow> string \<Rightarrow> world \<Rightarrow> emission list \<times> world" where
  "disconnect fault sid w =
     (let s = get_socket w sid;
          w0 = w\<lparr>sockets := AList.delete sid (sockets w)\<rparr> in
      if fault = Some 0 then ([], w0)
      else let w1 = w0\<lparr>players := map (\<lambda>p. if socket_id p = sid then p\<lparr>connected := False\<rparr> else p)
                                   (players w0)\<rparr> in
      case roomCode s of
        None \<Rightarrow> ([], w1)
      | Some code \<Rightarrow>
          if code = [] then ([], w1)
          else ([ToOthers code sid (PlayerDisconnected sid (playerSymbol s))],
                w1\<lparr>timers := timers w1 @ [code]\<rparr>))"

text \<open>
  The callback of the timer, run when it fires: it queries the connected players at
  that moment. A failure is only logged.
\<close>

definition cleanup :: "fault \<Rightarrow> string \<Rightarrow> world \<Rightarrow> world" where
  "cleanup fault code w =
     (if fault = Some 0 then w
      else let activePlayers = select_connected code (players w) in
      if length activePlayers = 0
      then if fault = Some 1 then w
           else let w1 = w\<lparr>players := filter (\<lambda>p. p_room_code p \<noteq> code) (players w)\<rparr> in
           if fault = Some 2 then w1
           else w1\<lparr>game_rooms := filter (\<lambda>r. room_code r \<noteq> code) (game_rooms w1)\<rparr>
      else w)"

section \<open>Runs of the server\<close>

datatype event =
    CreateRoom fault "nat \<Rightarrow> string"
  | JoinRoom fault string string "string option"
  | MakeMove fault string string int
  | ResetGame fault string string
  | Disconnect fault string
  | TimerFires fault string

text \<open>One event at a time; a timer fires only while it is pending.\<close>

fun step :: "world \<Rightarrow> event \<Rightarrow> world" where
  "step w (CreateRoom fault gen) = snd (create_room fault gen w)"
| "step w (JoinRoom fault sid code nm) = snd (join_room fault sid code nm w)"
| "step w (MakeMove fault sid code position) = snd (make_move fault sid code position w)"
| "step w (ResetGame fault sid code) = snd (reset_game fault sid code w)"
| "step w (Disconnect fault sid) = snd (disconnect fault sid w)"
| "step w (TimerFires fault code) =
     (if code \<in> set (timers w)
      then cleanup fault code (w\<lparr>timers := remove1 code (timers w)\<rparr>)
      else w)"

definition run :: "world \<Rightarrow> event list \<Rightarrow> world" where
  "run w evs = foldl step w evs"

definition start :: world where
  "start = \<lparr>game_rooms = [], players = [], sockets = [], timers = []\<rparr>"

section \<open>Notions used in the statements\<close>

text \<open>The evaluation of the board that a room row stores.\<close>

definition evaluation :: "game_room \<Rightarrow> string option" where
  "evaluation r = checkWinner (boardToArray (board r))"

text \<open>The first row of a room code, which is the row the handlers read as \<^verbatim>\<open>rows[0]\<close>.\<close>

definition room_at :: "world \<Rightarrow> string \<Rightarrow> game_room option" where
  "room_at w code = find (\<lambda>r. room_code r = code) (game_rooms w)"

text \<open>The symbol in the player record of a connection.\<close>

definition symbol_of :: "world \<Rightarrow> string \<Rightarrow> string option" where
  "symbol_of w sid = map_option symbol (find (\<lambda>p. socket_id p = sid) (players w))"

text \<open>
  What a row satisfies in every run: the board has nine characters, the turn is X or O,
  and a finished row holds what the move handler stores for the evaluation of its board.
\<close>

definition room_ok :: "game_room \<Rightarrow> bool" where
  "room_ok r =
     (length (board r) = 9
      \<and> current_player r \<in> {''X'', ''O''}
      \<and> (game_status r = ''finished'' \<longrightarrow>
           evaluation r \<noteq> None \<and> winner r = stored_winner (evaluation r)))"

text \<open>The cells that \<open>boardToArray\<close> produces: empty, or one character that is not a space.\<close>

definition cell_ok :: "string \<Rightarrow> bool" where
  "cell_ok c = (c = [] \<or> (\<exists>ch. c = [ch] \<and> ch \<noteq> CHR '' ''))"

text \<open>The checks of the move handler all pass for the room row \<open>room\<close> and the mover's symbol \<open>mark\<close>.\<close>

definition legal :: "world \<Rightarrow> string \<Rightarrow> string \<Rightarrow> int \<Rightarrow> game_room \<Rightarrow> string \<Rightarrow> bool" where
  "legal w sid code position room mark =
     (\<not> not_in_room (get_socket w sid) code
      \<and> (\<exists>rs. select_room code (game_rooms w) = room # rs)
      \<and> game_status room = ''playing''
      \<and> playerSymbol (get_socket w sid) = Some mark
      \<and> current_player room = mark
      \<and> 0 \<le> position \<and> position \<le> 8
      \<and> at (boardToArray (board room)) (nat position) = Some [])"

text \<open>
  Two games in the room \<^verbatim>\<open>ABC123\<close> between the connections \<^verbatim>\<open>s1\<close> (Alice) and
  \<^verbatim>\<open>s2\<close> (Bob): the one of the specification's end-to-end scenario, which X wins
  with the top row, and one that fills the board without a completed triple.
\<close>

definition fixed_code :: "nat \<Rightarrow> string" where
  "fixed_code n = ''ABC123''"

definition both_joined :: "event list" where
  "both_joined =
     [CreateRoom None fixed_code,
      JoinRoom None ''s1'' ''ABC123'' (Some ''Alice''),
      JoinRoom None ''s2'' ''ABC123'' (Some ''Bob'')]"

definition won_game :: "event list" where
  "won_game = both_joined @
     [MakeMove None ''s1'' ''ABC123'' 0, MakeMove None ''s2'' ''ABC123'' 3,
      MakeMove None ''s1'' ''ABC123'' 1, MakeMove None ''s2'' ''ABC123'' 4,
      MakeMove None ''s1'' ''ABC123'' 2]"

definition won_room :: game_room where
  "won_room =
     \<lparr>room_code = ''ABC123'', player1_id = Some ''s1'', player2_id = Some ''s2'',
      current_player = ''O'', board = ''XXXOO    '', game_status = ''finished'',
      winner = Some ''X''\<rparr>"

definition drawn_game :: "event list" where
  "drawn_game = both_joined @
     [MakeMove None ''s1'' ''ABC123'' 0, MakeMove None ''s2'' ''ABC123'' 1,
      MakeMove None ''s1'' ''ABC123'' 2, MakeMove None ''s2'' ''ABC123'' 4,
      MakeMove None ''s1'' ''ABC123'' 3, MakeMove None ''s2'' ''ABC123'' 5,
      MakeMove None ''s1'' ''ABC123'' 7, MakeMove None ''s2'' ''ABC123'' 6,
      MakeMove None ''s1'' ''ABC123'' 8]"

definition drawn_room :: game_room where
  "drawn_room =
     \<lparr>room_code = ''ABC123'', player1_id = Some ''s1'', player2_id = Some ''s2'',
      current_player = ''O'', board = ''XOXXOOOXX'', game_status = ''finished'',
      winner = None\<rparr>"

text \<open>The move handler applied the move: its first emission is the \<^verbatim>\<open>game-updated\<close> broadcast.\<close>

definition accepted :: "emission list \<Rightarrow> bool" where
  "accepted out = (case out of ToRoom _ (GameUpdated _) # _ \<Rightarrow> True | _ \<Rightarrow> False)"

text \<open>The other symbol, as the move handler computes \<^verbatim>\<open>nextPlayer\<close>.\<close>

definition opposite :: "string \<Rightarrow> string" where
  "opposite mark = (if mark = ''X'' then ''O'' else ''X'')"

text \<open>
  A sequence of moves in one room, each by a connection at a position: the result is the
  world after them when each move is applied and leaves the game in progress (no winner
  and no draw), and \<open>None\<close> as soon as one is rejected or ends the game.
\<close>

fun play :: "string \<Rightarrow> (string \<times> int) list \<Rightarrow> world \<Rightarrow> world option" where
  "play code [] w = Some w"
| "play code ((sid, position) # ms) w =
     (case make_move None sid code position w of
        (out, w') \<Rightarrow>
          if accepted out \<and> map_option game_status (room_at w' code) = Some ''playing''
          then play code ms w'
          else None)"

text \<open>The world after the room \<^verbatim>\<open>ABC123\<close> was created and both players joined, and its room row.\<close>

definition after_joins :: world where
  "after_joins = run start both_joined"

definition joined_room :: game_room where
  "joined_room =
     \<lparr>room_code = ''ABC123'', player1_id = Some ''s1'', player2_id = Some ''s2'',
      current_player = ''X'', board = ''         '', game_status = ''playing'',
      winner = None\<rparr>"

text \<open>
  The world that a join leaves when it passes its checks and the datastore answers: the
  player row upserted, the connection bound, and the room row updated.
\<close>

definition joined :: "string \<Rightarrow> string \<Rightarrow> string option \<Rightarrow> world \<Rightarrow> world" where
  "joined sid code nm w =
     (let isFirstPlayer = (length (select_connected code (players w)) = 0);
          mark = (if isFirstPlayer then ''X'' else ''O'')
      in w\<lparr>players := upsert_player sid code mark
                          (case nm of None \<Rightarrow> ''Anonymous'' | Some n \<Rightarrow> n) (players w),
           sockets := AList.update sid
                        \<lparr>roomCode = Some code, playerSymbol = Some mark\<rparr> (sockets w),
           game_rooms :=
             (if isFirstPlayer
              then update_rooms code (\<lambda>r. r\<lparr>player1_id := Some sid\<rparr>) (game_rooms w)
              else update_rooms code
                     (\<lambda>r. r\<lparr>player2_id := Some sid, game_status := ''playing''\<rparr>)
                     (game_rooms w))\<rparr>)"


text \<open>
  The world with the room \<^verbatim>\<open>ABC123\<close> just created; a run in which the connection
  \<^verbatim>\<open>s1\<close> sends \<^verbatim>\<open>join-room\<close> twice; and a run in which \<^verbatim>\<open>s1\<close> disconnects after both
  players joined and the same person comes back on a new connection \<^verbatim>\<open>s3\<close>.
\<close>

definition fresh :: world where
  "fresh = run start [CreateRoom None fixed_code]"



text \<open>
  A store in which nine rooms exist, created one after the other, and a generator whose
  first nine candidates are the codes of those rooms and whose tenth is a code that no
  room has.
\<close>

definition taken :: "string list" where
  "taken = [''AAAAA0'', ''AAAAA1'', ''AAAAA2'', ''AAAAA3'', ''AAAAA4'',
            ''AAAAA5'', ''AAAAA6'', ''AAAAA7'', ''AAAAA8'']"

definition crowded :: world where
  "crowded = run start (map (\<lambda>c. CreateRoom None (\<lambda>n. c)) taken)"

definition colliding :: "nat \<Rightarrow> string" where
  "colliding n = (if n < 9 then taken ! n else ''AAAAA9'')"

section \<open>The board functions meet their specification\<close>

lemma triples_winPatterns: "triples = winPatterns"
  by (simp add: triples_def rows_def columns_def diagonals_def winPatterns_def)

lemma check_patterns_find:
  "length b = 9 \<Longrightarrow> set ps \<subseteq> set winPatterns \<Longrightarrow>
   check_patterns ps b = (case find (completed b) ps of None \<Rightarrow> None | Some p \<Rightarrow> Some (b ! fst p))"
proof (induction ps b rule: check_patterns.induct)
  case (1 cells)
  then show ?case by simp
next
  case (2 a b c ps cells)
  then show ?case
    by (auto simp: at_def truthy_def completed_def uniform_def winPatterns_def)
qed

lemma completed_cell:
  assumes wf: "well_formed_board b" and p: "p \<in> set winPatterns" and c: "completed b p"
  shows "b ! fst p \<in> {''X'', ''O''}"
proof -
  from p wf have "fst p < length b" by (auto simp: winPatterns_def well_formed_board_def)
  then have "b ! fst p \<in> set b" by simp
  with wf c show ?thesis by (auto simp: well_formed_board_def completed_def)
qed

lemma list_all_filled: "list_all (\<lambda>cell. cell \<noteq> []) b = ([] \<notin> set b)"
  by (induction b) auto

lemma filled_uniform_completed:
  assumes l: "length b = 9" and f: "[] \<notin> set b" and p: "p \<in> set winPatterns" and u: "uniform b p"
  shows "completed b p"
proof -
  from p l have "fst p < length b" by (auto simp: winPatterns_def)
  then have "b ! fst p \<in> set b" by simp
  with f have "b ! fst p \<noteq> []" by metis
  with u show ?thesis by (simp add: completed_def)
qed

lemma checkWinner_find:
  assumes len: "length b = 9"
  shows "checkWinner b =
      (case find (completed b) winPatterns of
         Some p \<Rightarrow> Some (b ! fst p)
       | None \<Rightarrow> if [] \<notin> set b then Some ''draw'' else None)"
  by (simp add: checkWinner_def check_patterns_find [OF len] list_all_filled split: option.splits)

text \<open>
  Claim C1. For every board of 9 cells, each empty, X or O: \<open>checkWinner\<close> returns a
  winner symbol (X or O) if and only if one of the 8 standard triples (3 rows, 3 columns,
  2 diagonals) is uniform and non-empty, and then it returns the symbol of the first such
  triple in pattern order; it returns draw if and only if no triple is uniform and all 9
  cells are non-empty; it returns none (null) exactly in the remaining case, where no
  triple is completed and some cell is empty.
\<close>

theorem checkWinner_spec:
  assumes wf: "well_formed_board b"
  shows "(checkWinner b \<in> {Some ''X'', Some ''O''} \<longleftrightarrow> (\<exists>p \<in> set triples. completed b p))
    \<and> (\<forall>p. find (completed b) triples = Some p \<longrightarrow> checkWinner b = Some (b ! fst p))
    \<and> (checkWinner b = Some ''draw'' \<longleftrightarrow> (\<forall>p \<in> set triples. \<not> uniform b p) \<and> [] \<notin> set b)
    \<and> (checkWinner b = None \<longleftrightarrow> (\<forall>p \<in> set triples. \<not> completed b p) \<and> [] \<in> set b)"
proof -
  from wf have len: "length b = 9" by (simp add: well_formed_board_def)
  note cw = checkWinner_find [OF len]
  show ?thesis
  proof (cases "find (completed b) winPatterns")
    case None
    then have no: "\<forall>p \<in> set winPatterns. \<not> completed b p"
      by (auto simp: find_None_iff)
    have "[] \<notin> set b \<Longrightarrow> \<forall>p \<in> set winPatterns. \<not> uniform b p"
      using no filled_uniform_completed [OF len] by blast
    moreover have "\<forall>p \<in> set winPatterns. \<not> uniform b p \<Longrightarrow> \<forall>p \<in> set winPatterns. \<not> completed b p"
      by (simp add: completed_def)
    ultimately show ?thesis
      using None no by (auto simp: cw triples_winPatterns)
  next
    case (Some p)
    then have p: "p \<in> set winPatterns" and c: "completed b p"
      by (auto simp: find_Some_iff)
    from completed_cell [OF wf p c] have mark: "b ! fst p \<in> {''X'', ''O''}" .
    have nd: "\<not> (\<forall>q \<in> set winPatterns. \<not> uniform b q)"
      using p c by (auto simp: completed_def)
    show ?thesis
      using Some p c mark nd by (auto simp: cw triples_winPatterns)
  qed
qed

theorem checkWinner_spec_witness:
  "well_formed_board [''X'', ''O'', ''X'', ''X'', ''O'', ''O'', ''O'', ''X'', ''X'']
   \<and> checkWinner [''X'', ''O'', ''X'', ''X'', ''O'', ''O'', ''O'', ''X'', ''X''] = Some ''draw''
   \<and> well_formed_board [''O'', ''O'', [], ''X'', ''X'', ''X'', [], [], []]
   \<and> find (completed [''O'', ''O'', [], ''X'', ''X'', ''X'', [], [], []]) triples = Some (3, 4, 5)
   \<and> checkWinner [''O'', ''O'', [], ''X'', ''X'', ''X'', [], [], []] = Some ''X''"
proof -
  let ?d = "[''X'', ''O'', ''X'', ''X'', ''O'', ''O'', ''O'', ''X'', ''X'']"
  let ?w = "[''O'', ''O'', [], ''X'', ''X'', ''X'', [], [], []]"
  have wd: "well_formed_board ?d" and ww: "well_formed_board ?w"
    by (simp_all add: well_formed_board_def)
  have nu: "(\<forall>p \<in> set triples. \<not> uniform ?d p) \<and> [] \<notin> set ?d"
    by (simp add: triples_def rows_def columns_def diagonals_def uniform_def)
  have f: "find (completed ?w) triples = Some (3, 4, 5)"
    by (simp add: triples_def rows_def columns_def diagonals_def completed_def uniform_def)
  from checkWinner_spec [OF wd] nu have "checkWinner ?d = Some ''draw''" by blast
  moreover from checkWinner_spec [OF ww] f have "checkWinner ?w = Some ''X''" by simp
  ultimately show ?thesis using wd ww f by blast
qed

section \<open>The rooms of every run\<close>

lemma select_room_head:
  assumes "select_room code rooms = r # rs"
  shows "r \<in> set rooms \<and> room_code r = code"
proof -
  from assms have "r \<in> set (filter (\<lambda>r. room_code r = code) rooms)"
    by (simp add: select_room_def)
  then show ?thesis by simp
qed

lemma make_move_world:
  "snd (make_move fault sid code position w) = w \<or>
   (\<exists>room mark. legal w sid code position room mark \<and>
      snd (make_move fault sid code position w) =
        w\<lparr>game_rooms := update_rooms code (moved room position mark) (game_rooms w)\<rparr>)"
  unfolding make_move_def legal_def failed_def
  by (simp add: Let_def split: list.splits option.splits)

lemma join_room_rooms:
  "game_rooms (snd (join_room fault sid code nm w)) = game_rooms w
   \<or> game_rooms (snd (join_room fault sid code nm w)) =
       update_rooms code (\<lambda>r. r\<lparr>player1_id := Some sid\<rparr>) (game_rooms w)
   \<or> game_rooms (snd (join_room fault sid code nm w)) =
       update_rooms code (\<lambda>r. r\<lparr>player2_id := Some sid, game_status := ''playing''\<rparr>) (game_rooms w)"
  unfolding join_room_def failed_def
  by (simp add: Let_def split: list.splits)

lemma reset_game_rooms:
  "game_rooms (snd (reset_game fault sid code w)) = game_rooms w
   \<or> game_rooms (snd (reset_game fault sid code w)) =
       update_rooms code (\<lambda>r. r\<lparr>board := ''         '', current_player := ''X'',
                                game_status := ''playing'', winner := None\<rparr>) (game_rooms w)"
  unfolding reset_game_def failed_def
  by (simp add: Let_def)

lemma create_room_rooms:
  "game_rooms (snd (create_room fault gen w)) = game_rooms w
   \<or> (\<exists>code. game_rooms (snd (create_room fault gen w)) = game_rooms w @ [new_room code])"
proof (cases "generate_unique fault gen (game_rooms w) 0")
  case None
  then show ?thesis by (simp add: create_room_def)
next
  case (Some res)
  obtain code attempts where "res = (code, attempts)" by (cases res)
  with Some show ?thesis by (simp add: create_room_def) blast
qed

lemma disconnect_rooms: "game_rooms (snd (disconnect fault sid w)) = game_rooms w"
  unfolding disconnect_def
  by (simp add: Let_def split: option.splits)

lemma cleanup_rooms: "set (game_rooms (cleanup fault code w)) \<subseteq> set (game_rooms w)"
  unfolding cleanup_def
  by (auto simp add: Let_def)

lemma boardToArray_append: "boardToArray (s @ t) = boardToArray s @ boardToArray t"
  by (simp add: boardToArray_def)

lemma cell_roundtrip:
  assumes "cell_ok c"
  shows "boardToArray (if c = [] then '' '' else c) = [c]"
proof (cases "c = []")
  case True
  then show ?thesis by (simp add: boardToArray_def)
next
  case False
  with assms obtain ch where "c = [ch]" and "ch \<noteq> CHR '' ''"
    unfolding cell_ok_def by blast
  then show ?thesis by (simp add: boardToArray_def)
qed

lemma cells_roundtrip:
  "\<forall>c \<in> set cells. cell_ok c \<Longrightarrow> boardToArray (arrayToBoard cells) = cells"
proof (induction cells)
  case Nil
  show ?case by (simp add: boardToArray_def arrayToBoard_def)
next
  case (Cons c cells)
  then have c: "cell_ok c" and rest: "boardToArray (arrayToBoard cells) = cells"
    by simp_all
  have "arrayToBoard (c # cells) = (if c = [] then '' '' else c) @ arrayToBoard cells"
    by (simp add: arrayToBoard_def)
  then show ?case
    using cell_roundtrip [OF c] rest by (simp only: boardToArray_append) simp
qed

lemma boardToArray_cells: "\<forall>c \<in> set (boardToArray s). cell_ok c"
  by (induction s) (simp_all add: boardToArray_def cell_ok_def)

lemma moved_roundtrip:
  assumes "mark \<in> {''X'', ''O''}"
  shows "boardToArray (arrayToBoard ((boardToArray s)[i := mark])) = (boardToArray s)[i := mark]"
proof (rule cells_roundtrip, rule ballI)
  fix c assume "c \<in> set ((boardToArray s)[i := mark])"
  then have "c \<in> insert mark (set (boardToArray s))"
    using set_update_subset_insert [of "boardToArray s" i mark] by blast
  then have "c = mark \<or> c \<in> set (boardToArray s)" by simp
  moreover from assms have "cell_ok mark" by (auto simp: cell_ok_def)
  ultimately show "cell_ok c"
    using boardToArray_cells [of s] by blast
qed

lemma length_boardToArray: "length (boardToArray s) = length s"
  by (simp add: boardToArray_def)

lemma moved_length:
  assumes "mark \<in> {''X'', ''O''}"
  shows "length (arrayToBoard ((boardToArray s)[i := mark])) = length s"
proof -
  have "length (arrayToBoard ((boardToArray s)[i := mark])) =
        length (boardToArray (arrayToBoard ((boardToArray s)[i := mark])))"
    by (simp only: length_boardToArray)
  also have "\<dots> = length ((boardToArray s)[i := mark])"
    by (simp only: moved_roundtrip [OF assms])
  finally show ?thesis by (simp add: length_boardToArray)
qed

lemma moved_ok:
  assumes "mark \<in> {''X'', ''O''}" and "length (board room) = 9"
  shows "room_ok (moved room position mark r)"
proof -
  have "length (board (moved room position mark r)) = 9"
    using assms(2) by (simp add: moved_def Let_def moved_length [OF assms(1)])
  moreover have "current_player (moved room position mark r) \<in> {''X'', ''O''}"
    by (simp add: moved_def Let_def)
  moreover have "game_status (moved room position mark r) = ''finished'' \<longrightarrow>
      evaluation (moved room position mark r) \<noteq> None
      \<and> winner (moved room position mark r) = stored_winner (evaluation (moved room position mark r))"
    by (auto simp: moved_def evaluation_def Let_def moved_roundtrip [OF assms(1)] truthy_def
        split: option.splits)
  ultimately show ?thesis by (simp add: room_ok_def)
qed

lemma update_rooms_ok:
  assumes "\<forall>r \<in> set rooms. room_ok r" and "\<And>r. room_ok r \<Longrightarrow> room_ok (f r)"
  shows "\<forall>r \<in> set (update_rooms code f rooms). room_ok r"
  using assms by (auto simp: update_rooms_def)

lemma step_ok:
  assumes inv: "\<forall>r \<in> set (game_rooms w). room_ok r"
  shows "\<forall>r \<in> set (game_rooms (step w e)). room_ok r"
proof (cases e)
  case (CreateRoom fault gen)
  then have eq: "step w e = snd (create_room fault gen w)" by simp
  have new: "room_ok (new_room code)" for code by (simp add: room_ok_def new_room_def)
  from create_room_rooms [of fault gen w]
  consider "game_rooms (step w e) = game_rooms w"
    | code where "game_rooms (step w e) = game_rooms w @ [new_room code]"
    unfolding eq by blast
  then show ?thesis
  proof cases
    case 1
    then show ?thesis using inv by simp
  next
    case 2
    then show ?thesis using inv new by simp
  qed
next
  case (JoinRoom fault sid code nm)
  then have eq: "step w e = snd (join_room fault sid code nm w)" by simp
  have a: "room_ok r \<Longrightarrow> room_ok (r\<lparr>player1_id := Some sid\<rparr>)" for r
    by (simp add: room_ok_def evaluation_def)
  have b: "room_ok r \<Longrightarrow> room_ok (r\<lparr>player2_id := Some sid, game_status := ''playing''\<rparr>)" for r
    by (simp add: room_ok_def evaluation_def)
  from join_room_rooms [of fault sid code nm w]
  consider "game_rooms (step w e) = game_rooms w"
    | "game_rooms (step w e) = update_rooms code (\<lambda>r. r\<lparr>player1_id := Some sid\<rparr>) (game_rooms w)"
    | "game_rooms (step w e) =
        update_rooms code (\<lambda>r. r\<lparr>player2_id := Some sid, game_status := ''playing''\<rparr>) (game_rooms w)"
    unfolding eq by blast
  then show ?thesis
  proof cases
    case 1
    then show ?thesis using inv by simp
  next
    case 2
    show ?thesis unfolding 2 by (rule update_rooms_ok [OF inv a])
  next
    case 3
    show ?thesis unfolding 3 by (rule update_rooms_ok [OF inv b])
  qed
next
  case (MakeMove fault sid code position)
  then have eq: "step w e = snd (make_move fault sid code position w)" by simp
  from make_move_world [of fault sid code position w]
  consider "step w e = w"
    | room mark where "legal w sid code position room mark"
        and "step w e = w\<lparr>game_rooms := update_rooms code (moved room position mark) (game_rooms w)\<rparr>"
    unfolding eq by blast
  then show ?thesis
  proof cases
    case 1
    then show ?thesis using inv by simp
  next
    case 2
    from 2(1) obtain rs where "select_room code (game_rooms w) = room # rs"
      and cp: "current_player room = mark"
      by (auto simp: legal_def)
    then have "room \<in> set (game_rooms w)" using select_room_head by blast
    with inv cp have "mark \<in> {''X'', ''O''}" and "length (board room) = 9"
      by (auto simp: room_ok_def)
    then have "room_ok (moved room position mark r)" for r by (rule moved_ok)
    then have "\<forall>r \<in> set (update_rooms code (moved room position mark) (game_rooms w)). room_ok r"
      using update_rooms_ok [OF inv] by blast
    then show ?thesis unfolding 2(2) by simp
  qed
next
  case (ResetGame fault sid code)
  then have eq: "step w e = snd (reset_game fault sid code w)" by simp
  have a: "room_ok (r\<lparr>board := ''         '', current_player := ''X'',
                    game_status := ''playing'', winner := None\<rparr>)" for r
    by (simp add: room_ok_def)
  from reset_game_rooms [of fault sid code w]
  consider "game_rooms (step w e) = game_rooms w"
    | "game_rooms (step w e) =
        update_rooms code (\<lambda>r. r\<lparr>board := ''         '', current_player := ''X'',
                                game_status := ''playing'', winner := None\<rparr>) (game_rooms w)"
    unfolding eq by blast
  then show ?thesis
  proof cases
    case 1
    then show ?thesis using inv by simp
  next
    case 2
    show ?thesis unfolding 2 by (rule update_rooms_ok [OF inv a])
  qed
next
  case (Disconnect fault sid)
  with inv show ?thesis by (simp add: disconnect_rooms)
next
  case (TimerFires fault code)
  with inv cleanup_rooms [of fault code "w\<lparr>timers := remove1 code (timers w)\<rparr>"]
  show ?thesis by auto
qed

lemma run_ok:
  "\<forall>r \<in> set (game_rooms w). room_ok r \<Longrightarrow> \<forall>r \<in> set (game_rooms (run w evs)). room_ok r"
  unfolding run_def
proof (induction evs arbitrary: w)
  case Nil
  then show ?case by simp
next
  case (Cons e evs)
  from Cons.prems have "\<forall>r \<in> set (game_rooms (step w e)). room_ok r" by (rule step_ok)
  then show ?case using Cons.IH by simp
qed

lemma won_game_rooms: "game_rooms (run start won_game) = [won_room]"
  by code_simp

lemma drawn_game_rooms: "game_rooms (run start drawn_game) = [drawn_room]"
  by code_simp

section \<open>Moves\<close>

lemma find_as_filter: "find P xs = (case filter P xs of [] \<Rightarrow> None | x # _ \<Rightarrow> Some x)"
  by (induction xs) simp_all

lemma room_at_select:
  "room_at w code = (case select_room code (game_rooms w) of [] \<Rightarrow> None | r # _ \<Rightarrow> Some r)"
  by (simp add: room_at_def select_room_def find_as_filter)

lemma select_room_update:
  assumes "\<And>r. room_code (f r) = room_code r"
  shows "select_room code' (update_rooms code f rooms) =
         map (\<lambda>r. if room_code r = code then f r else r) (select_room code' rooms)"
  using assms by (induction rooms) (simp_all add: select_room_def update_rooms_def)

lemma room_code_moved: "room_code (moved room position mark r) = room_code r"
  by (simp add: moved_def Let_def)

lemma select_room_moved:
  "select_room code (update_rooms code (moved room position mark) rooms) =
   map (moved room position mark) (select_room code rooms)"
proof -
  have "\<forall>r \<in> set (select_room code rooms). room_code r = code"
    by (simp add: select_room_def)
  then have "map (\<lambda>r. if room_code r = code then moved room position mark r else r) (select_room code rooms)
     = map (moved room position mark) (select_room code rooms)"
    by (simp cong: map_cong)
  then show ?thesis
    by (simp add: select_room_update [of "moved room position mark", OF room_code_moved])
qed

lemma sendPlayerInfo_None:
  "sendPlayerInfo None k code w =
     Some (case select_room code (game_rooms w) of
        [] \<Rightarrow> []
      | room # _ \<Rightarrow>
          map (\<lambda>p. ToSocket (socket_id p)
                     (PlayerInfo (symbol p)
                        (symbol p = current_player room \<and> game_status room = ''playing'')))
                      (filter (\<lambda>p. live w (socket_id p))
                         (select_connected code (players w))))"
  by (simp add: sendPlayerInfo_def split: list.splits)

text \<open>What a legal move does when the datastore answers.\<close>

lemma make_move_legal:
  assumes l: "legal w sid code position room mark"
  defines "w1 \<equiv> w\<lparr>game_rooms := update_rooms code (moved room position mark) (game_rooms w)\<rparr>"
  shows "make_move None sid code position w = (announce_move None sid code position mark w1, w1)"
  using l unfolding legal_def w1_def make_move_def
  by (auto simp: Let_def)

lemma announce_move_legal:
  fixes position :: int and mark :: string
  assumes "select_room code (game_rooms w) = room # rs"
  defines "r1 \<equiv> moved room position mark room"
  shows "announce_move None sid code position mark
           (w\<lparr>game_rooms := update_rooms code (moved room position mark) (game_rooms w)\<rparr>) =
     ToRoom code (GameUpdated
       \<lparr>gs_roomCode = code, gs_board = boardToArray (board r1),
        gs_currentPlayer = current_player r1, gs_gameStatus = game_status r1,
        gs_winner = winner r1, gs_players = select_connected code (players w),
        gs_lastMove = Some (position, mark)\<rparr>)
     # map (\<lambda>p. ToSocket (socket_id p)
                (PlayerInfo (symbol p) (symbol p = current_player r1 \<and> game_status r1 = ''playing'')))
         (filter (\<lambda>p. live w (socket_id p)) (select_connected code (players w)))"
  using assms(1) unfolding r1_def announce_move_def
  by (simp add: select_room_moved sendPlayerInfo_None live_def)

text \<open>A move that is not legal is answered with one error and changes nothing.\<close>

lemma make_move_illegal:
  assumes "\<And>room mark. \<not> legal w sid code position room mark"
  shows "\<exists>m. make_move None sid code position w = ([ToSocket sid (ErrorMsg m)], w)"
  using assms unfolding legal_def make_move_def
  by (auto simp: Let_def split: list.splits option.splits)

lemma accepted_legal:
  assumes "accepted (fst (make_move None sid code position w))"
  shows "\<exists>room mark. legal w sid code position room mark"
proof (rule ccontr)
  assume "\<not> (\<exists>room mark. legal w sid code position room mark)"
  then have "\<exists>m. make_move None sid code position w = ([ToSocket sid (ErrorMsg m)], w)"
    using make_move_illegal by blast
  with assms show False by (auto simp: accepted_def)
qed

lemma legal_room_at: "legal w sid code position room mark \<Longrightarrow> room_at w code = Some room"
  by (auto simp: legal_def room_at_select)

lemma room_at_moved:
  assumes "room_at w code = Some room"
  shows "room_at (w\<lparr>game_rooms := update_rooms code (moved room position mark) (game_rooms w)\<rparr>) code
         = Some (moved room position mark room)"
  using assms by (simp add: room_at_select select_room_moved split: list.splits)

lemma room_at_Some:
  assumes "room_at w code = Some room"
  shows "\<exists>rs. select_room code (game_rooms w) = room # rs"
proof (cases "select_room code (game_rooms w)")
  case Nil
  with assms show ?thesis by (simp add: room_at_select)
next
  case (Cons r rs)
  with assms show ?thesis by (simp add: room_at_select)
qed

text \<open>
  Claim C6. A move is rejected with \<^verbatim>\<open>Not in this room\<close> when the connection is not
  bound to the room, with \<^verbatim>\<open>Game not in progress\<close> when it is bound and the room's
  status is not playing, with \<^verbatim>\<open>Not your turn\<close> when moreover the status is playing
  and the mover's symbol is not the current player, and with \<^verbatim>\<open>Invalid move\<close> when
  all of that passes and the position is outside 0..8 or the cell is not empty. In each
  case the only emission is that error, to the mover, and the world (so the room's
  board, current player, status and winner) is unchanged; and every move that is not
  applied is answered with exactly one error to the mover and changes nothing.
\<close>

theorem rejected_move:
  fixes w :: world and sid code :: string and position :: int
  defines "s \<equiv> get_socket w sid" and "res \<equiv> make_move None sid code position w"
  shows "(not_in_room s code \<longrightarrow> res = ([ToSocket sid (ErrorMsg ''Not in this room'')], w))
    \<and> (\<forall>room. \<not> not_in_room s code \<and> room_at w code = Some room
          \<and> game_status room \<noteq> ''playing''
        \<longrightarrow> res = ([ToSocket sid (ErrorMsg ''Game not in progress'')], w))
    \<and> (\<forall>room. \<not> not_in_room s code \<and> room_at w code = Some room
          \<and> game_status room = ''playing'' \<and> playerSymbol s \<noteq> Some (current_player room)
        \<longrightarrow> res = ([ToSocket sid (ErrorMsg ''Not your turn'')], w))
    \<and> (\<forall>room. \<not> not_in_room s code \<and> room_at w code = Some room
          \<and> game_status room = ''playing'' \<and> playerSymbol s = Some (current_player room)
          \<and> (position < 0 \<or> position > 8 \<or> at (boardToArray (board room)) (nat position) \<noteq> Some [])
        \<longrightarrow> res = ([ToSocket sid (ErrorMsg ''Invalid move'')], w))
    \<and> (\<not> accepted (fst res) \<longrightarrow> (\<exists>m. res = ([ToSocket sid (ErrorMsg m)], w)))"
proof (intro conjI allI impI)
  assume "not_in_room s code"
  then show "res = ([ToSocket sid (ErrorMsg ''Not in this room'')], w)"
    by (simp add: res_def s_def make_move_def)
next
  fix room
  assume a: "\<not> not_in_room s code \<and> room_at w code = Some room \<and> game_status room \<noteq> ''playing''"
  then obtain rs where "select_room code (game_rooms w) = room # rs"
    using room_at_Some by blast
  with a show "res = ([ToSocket sid (ErrorMsg ''Game not in progress'')], w)"
    by (simp add: res_def s_def make_move_def)
next
  fix room
  assume a: "\<not> not_in_room s code \<and> room_at w code = Some room
          \<and> game_status room = ''playing'' \<and> playerSymbol s \<noteq> Some (current_player room)"
  then obtain rs where sel: "select_room code (game_rooms w) = room # rs"
    using room_at_Some by blast
  show "res = ([ToSocket sid (ErrorMsg ''Not your turn'')], w)"
  proof (cases "playerSymbol (get_socket w sid)")
    case None
    with a sel show ?thesis by (simp add: res_def s_def make_move_def)
  next
    case (Some mark)
    with a have "current_player room \<noteq> mark" by (auto simp: s_def)
    with a sel Some show ?thesis by (simp add: res_def s_def make_move_def)
  qed
next
  fix room
  assume a: "\<not> not_in_room s code \<and> room_at w code = Some room
          \<and> game_status room = ''playing'' \<and> playerSymbol s = Some (current_player room)
          \<and> (position < 0 \<or> position > 8 \<or> at (boardToArray (board room)) (nat position) \<noteq> Some [])"
  then obtain rs where sel: "select_room code (game_rooms w) = room # rs"
    using room_at_Some by blast
  from a have "position < 0 \<or> position > 8 \<or> at (boardToArray (board room)) (nat position) \<noteq> Some []"
    by blast
  with a sel show "res = ([ToSocket sid (ErrorMsg ''Invalid move'')], w)"
    by (simp add: res_def s_def make_move_def)
next
  assume na: "\<not> accepted (fst res)"
  have "\<not> legal w sid code position room mark" for room mark
  proof
    assume l: "legal w sid code position room mark"
    then obtain rs where "select_room code (game_rooms w) = room # rs"
      by (auto simp: legal_def)
    then have "accepted (fst res)"
      by (simp add: res_def make_move_legal [OF l] announce_move_legal accepted_def)
    with na show False by simp
  qed
  then show "\<exists>m. res = ([ToSocket sid (ErrorMsg m)], w)"
    unfolding res_def by (rule make_move_illegal)
qed

theorem rejected_move_witness:
  "\<not> not_in_room (get_socket after_joins ''s2'') ''ABC123''
   \<and> room_at after_joins ''ABC123'' = Some joined_room
   \<and> game_status joined_room = ''playing''
   \<and> playerSymbol (get_socket after_joins ''s2'') \<noteq> Some (current_player joined_room)
   \<and> make_move None ''s2'' ''ABC123'' 0 after_joins =
        ([ToSocket ''s2'' (ErrorMsg ''Not your turn'')], after_joins)"
proof -
  have h: "\<not> not_in_room (get_socket after_joins ''s2'') ''ABC123''
     \<and> room_at after_joins ''ABC123'' = Some joined_room
     \<and> game_status joined_room = ''playing''
     \<and> playerSymbol (get_socket after_joins ''s2'') \<noteq> Some (current_player joined_room)"
    by code_simp
  from rejected_move [where w = after_joins and sid = "''s2''" and code = "''ABC123''" and position = 0] h
  show ?thesis by blast
qed

text \<open>What an applied move looks like.\<close>

lemma applied_move:
  assumes mv: "make_move None sid code position w = (out, w')" and acc: "accepted out"
  shows "\<exists>room mark rs.
      legal w sid code position room mark
    \<and> select_room code (game_rooms w) = room # rs
    \<and> w' = w\<lparr>game_rooms := update_rooms code (moved room position mark) (game_rooms w)\<rparr>
    \<and> out = announce_move None sid code position mark w'
    \<and> room_at w' code = Some (moved room position mark room)
    \<and> current_player (moved room position mark room) = opposite mark"
proof -
  from mv acc have "accepted (fst (make_move None sid code position w))" by simp
  then obtain room mark where l: "legal w sid code position room mark"
    using accepted_legal by blast
  then obtain rs where sel: "select_room code (game_rooms w) = room # rs"
    by (auto simp: legal_def)
  let ?w1 = "w\<lparr>game_rooms := update_rooms code (moved room position mark) (game_rooms w)\<rparr>"
  have "(out, w') = (announce_move None sid code position mark ?w1, ?w1)"
    unfolding mv [symmetric] by (rule make_move_legal [OF l])
  then have w': "w' = ?w1" and out: "out = announce_move None sid code position mark w'"
    by blast+
  have ra: "room_at w' code = Some (moved room position mark room)"
    unfolding w' using legal_room_at [OF l] by (rule room_at_moved)
  have cp: "current_player (moved room position mark room) = opposite mark"
    by (simp add: moved_def opposite_def Let_def)
  from l sel w' out ra cp show ?thesis by blast
qed

text \<open>
  Claim C10. After every move that is applied, whether or not it ends the game, the
  stored current player of the room and the one in the broadcast are the symbol opposite
  to the mover's, which is never the mover's own; and when the move finishes the game
  every \<^verbatim>\<open>player-info\<close> message that is sent carries \<^verbatim>\<open>isMyTurn = false\<close>.
\<close>

theorem move_flips_turn:
  assumes mv: "make_move None sid code position w = (out, w')" and acc: "accepted out"
  shows "\<exists>mark r' gs infos.
      playerSymbol (get_socket w sid) = Some mark
    \<and> room_at w' code = Some r'
    \<and> current_player r' = opposite mark \<and> current_player r' \<noteq> mark
    \<and> out = ToRoom code (GameUpdated gs) # infos
    \<and> gs_currentPlayer gs = opposite mark
    \<and> gs_gameStatus gs = game_status r'
    \<and> (game_status r' = ''finished'' \<longrightarrow>
          (\<forall>sid' m t. ToSocket sid' (PlayerInfo m t) \<in> set out \<longrightarrow> \<not> t))"
proof -
  from applied_move [OF mv acc] obtain room mark rs where
    l: "legal w sid code position room mark"
    and sel: "select_room code (game_rooms w) = room # rs"
    and w': "w' = w\<lparr>game_rooms := update_rooms code (moved room position mark) (game_rooms w)\<rparr>"
    and out: "out = announce_move None sid code position mark w'"
    and ra: "room_at w' code = Some (moved room position mark room)"
    and cp: "current_player (moved room position mark room) = opposite mark"
    by blast
  let ?r1 = "moved room position mark room"
  from l have ps: "playerSymbol (get_socket w sid) = Some mark"
    by (simp add: legal_def)
  have ne: "opposite mark \<noteq> mark"
    by (simp add: opposite_def)
  note ann = announce_move_legal [OF sel, of sid position mark]
  have fl: "game_status ?r1 = ''finished'' \<Longrightarrow> ToSocket sid' (PlayerInfo m t) \<in> set out \<Longrightarrow> \<not> t"
    for sid' m t
    unfolding out w' ann by auto
  show ?thesis
    apply (rule exI [of _ mark], rule exI [of _ ?r1])
    apply (simp only: out w' ann)
    using ps ra cp ne fl [unfolded out w' ann] apply (simp add: w')
    apply blast
    done
qed

theorem move_flips_turn_witness:
  "accepted (fst (make_move None ''s1'' ''ABC123'' 2 (run start (butlast won_game))))
   \<and> map_option current_player (room_at (snd (make_move None ''s1'' ''ABC123'' 2 (run start (butlast won_game)))) ''ABC123'') = Some ''O''
   \<and> map_option game_status (room_at (snd (make_move None ''s1'' ''ABC123'' 2 (run start (butlast won_game)))) ''ABC123'') = Some ''finished''
   \<and> ToSocket ''s2'' (PlayerInfo ''O'' False) \<in> set (fst (make_move None ''s1'' ''ABC123'' 2 (run start (butlast won_game))))"
proof -
  let ?w = "run start (butlast won_game)"
  obtain out w' where mv: "make_move None ''s1'' ''ABC123'' 2 ?w = (out, w')"
    by (cases "make_move None ''s1'' ''ABC123'' 2 ?w")
  have acc: "accepted (fst (make_move None ''s1'' ''ABC123'' 2 ?w))"
    by code_simp
  then have acc': "accepted out" by (simp add: mv)
  have ps: "playerSymbol (get_socket ?w ''s1'') = Some ''X''"
    by code_simp
  have st: "map_option game_status (room_at (snd (make_move None ''s1'' ''ABC123'' 2 ?w)) ''ABC123'') = Some ''finished''"
    by code_simp
  have el: "ToSocket ''s2'' (PlayerInfo ''O'' False) \<in> set (fst (make_move None ''s1'' ''ABC123'' 2 ?w))"
    by code_simp
  from move_flips_turn [OF mv acc'] ps
  have "map_option current_player (room_at w' ''ABC123'') = Some ''O''"
    by (auto simp: opposite_def)
  with acc st el show ?thesis by (simp add: mv)
qed

lemma opposite_twice: "c \<in> {''X'', ''O''} \<Longrightarrow> opposite (opposite c) = c"
  by (auto simp: opposite_def)

lemma play_parity:
  assumes "room_at w code = Some r" and "current_player r = c" and "c \<in> {''X'', ''O''}"
    and "play code ms w = Some w'"
  shows "\<exists>r'. room_at w' code = Some r' \<and>
           current_player r' = (if even (length ms) then c else opposite c)"
  using assms
proof (induction ms arbitrary: w r c)
  case Nil
  then show ?case by simp
next
  case (Cons m ms)
  obtain sid position where m: "m = (sid, position)" by (cases m)
  obtain out w1 where mv: "make_move None sid code position w = (out, w1)"
    by (cases "make_move None sid code position w")
  from Cons.prems(4) have acc: "accepted out" and rest: "play code ms w1 = Some w'"
    by (simp_all add: m mv split: if_splits)
  from applied_move [OF mv acc] obtain room mark r1 where
    l: "legal w sid code position room mark" and r1: "room_at w1 code = Some r1"
    and cp1: "current_player r1 = opposite mark"
    by blast
  from Cons.prems(1,2) have "mark = c"
    using legal_room_at [OF l] l by (auto simp: legal_def)
  with cp1 have cp: "current_player r1 = opposite c" by simp
  from Cons.prems(3) have oc: "opposite c \<in> {''X'', ''O''}" by (auto simp: opposite_def)
  from Cons.IH [OF r1 cp oc rest] obtain r' where
    "room_at w' code = Some r'"
    "current_player r' = (if even (length ms) then opposite c else opposite (opposite c))"
    by blast
  then show ?case using opposite_twice [OF Cons.prems(3)] by auto
qed

text \<open>
  Claim C8. From a room whose current player is X, after any N moves that are all
  applied and none of which ends the game, the room's current player is X if N is even
  and O if N is odd.
\<close>

theorem turn_parity:
  assumes "room_at w code = Some r" and "current_player r = ''X''" and "play code ms w = Some w'"
  shows "\<exists>r'. room_at w' code = Some r' \<and>
           current_player r' = (if even (length ms) then ''X'' else ''O'')"
proof -
  have "''X'' \<in> {''X'', ''O''}" by simp
  from play_parity [OF assms(1,2) this assms(3)] show ?thesis
    by (auto simp: opposite_def)
qed

theorem turn_parity_witness:
  "\<exists>w' r'. play ''ABC123'' [(''s1'', 0), (''s2'', 3), (''s1'', 1)] after_joins = Some w'
     \<and> room_at w' ''ABC123'' = Some r' \<and> current_player r' = ''O''"
proof -
  have "play ''ABC123'' [(''s1'', 0), (''s2'', 3), (''s1'', 1)] after_joins \<noteq> None"
    by code_simp
  then obtain w' where p: "play ''ABC123'' [(''s1'', 0), (''s2'', 3), (''s1'', 1)] after_joins = Some w'"
    by blast
  have "map_option current_player (room_at after_joins ''ABC123'') = Some ''X''"
    by code_simp
  then obtain r where r: "room_at after_joins ''ABC123'' = Some r" and c: "current_player r = ''X''"
    by blast
  from turn_parity [OF r c p] show ?thesis using p by auto
qed

section \<open>Finished rooms\<close>

lemma check_patterns_truthy: "check_patterns ps cells = Some s \<Longrightarrow> s \<noteq> []"
  by (induction ps cells rule: check_patterns.induct)
     (auto simp: truthy_def split: if_splits option.splits)

lemma truthy_checkWinner: "truthy (checkWinner cells) = (checkWinner cells \<noteq> None)"
proof (cases "check_patterns winPatterns cells")
  case None
  then show ?thesis by (simp add: checkWinner_def truthy_def)
next
  case (Some s)
  with check_patterns_truthy [OF Some] show ?thesis by (simp add: checkWinner_def truthy_def)
qed

lemma no_uniform_draw:
  assumes len: "length cells = 9" and full: "[] \<notin> set cells"
    and none: "\<forall>p \<in> set triples. \<not> uniform cells p"
  shows "checkWinner cells = Some ''draw''"
proof -
  from none have "\<forall>p \<in> set winPatterns. \<not> completed cells p"
    by (simp add: completed_def triples_winPatterns)
  then have "find (completed cells) winPatterns = None"
    by (simp add: find_None_iff)
  with full show ?thesis by (simp add: checkWinner_find [OF len])
qed

text \<open>The room row that an applied move leaves, in a room with a nine-character board
  whose turn is X or O.\<close>

lemma applied_move_room:
  assumes mv: "make_move None sid code position w = (out, w')" and acc: "accepted out"
    and room: "room_at w code = Some room"
    and len: "length (board room) = 9" and turn: "current_player room \<in> {''X'', ''O''}"
  shows "\<exists>r'. room_at w' code = Some r'
      \<and> length (boardToArray (board r')) = 9
      \<and> (game_status r' = ''finished'') = (evaluation r' \<noteq> None)
      \<and> winner r' = stored_winner (evaluation r')"
proof -
  from applied_move [OF mv acc] obtain room0 mark where
    l: "legal w sid code position room0 mark"
    and ra: "room_at w' code = Some (moved room0 position mark room0)"
    by blast
  from legal_room_at [OF l] room have same: "room0 = room" by simp
  from l same have mark: "mark = current_player room" by (simp add: legal_def)
  with turn have xo: "mark \<in> {''X'', ''O''}" by simp
  let ?r' = "moved room position mark room"
  let ?cells = "(boardToArray (board room))[nat position := mark]"
  have b: "boardToArray (board ?r') = ?cells"
    by (simp add: moved_def Let_def moved_roundtrip [OF xo])
  then have e: "evaluation ?r' = checkWinner ?cells"
    by (simp add: evaluation_def)
  have 1: "length (boardToArray (board ?r')) = 9"
    unfolding b using len by (simp add: length_boardToArray)
  have 2: "(game_status ?r' = ''finished'') = (evaluation ?r' \<noteq> None)"
    unfolding e by (simp add: moved_def Let_def truthy_checkWinner)
  have 3: "winner ?r' = stored_winner (evaluation ?r')"
    unfolding e by (simp add: moved_def Let_def)
  from ra same 1 2 3 show ?thesis by blast
qed

text \<open>
  Claim C2, as amended. In every run of the server from the empty store (any sequence of
  create, join, move, reset, disconnect and timer events, with or without datastore
  failures), every room has a board of nine characters and a turn that is X or O, and a
  room whose status is finished has a board whose evaluation is not none, with a stored
  winner that is that evaluation when it is X or O and is null when the evaluation is
  draw. And every move that is applied in a room with such a board and turn leaves the
  room finished exactly when the evaluation of the new board is not none; in particular,
  when the new board has no empty cell and no uniform triple, the room is finished, the
  evaluation of its board is draw and the stored winner is null.
\<close>

theorem finished_winner:
  "(\<forall>r \<in> set (game_rooms (run start evs)).
        length (board r) = 9 \<and> current_player r \<in> {''X'', ''O''}
      \<and> (game_status r = ''finished'' \<longrightarrow>
            evaluation r \<noteq> None
          \<and> (evaluation r = Some ''draw'' \<longrightarrow> winner r = None)
          \<and> (evaluation r \<noteq> Some ''draw'' \<longrightarrow> winner r = evaluation r)))
   \<and> (make_move None sid code position w = (out, w') \<and> accepted out
        \<and> room_at w code = Some room
        \<and> length (board room) = 9 \<and> current_player room \<in> {''X'', ''O''} \<longrightarrow>
       (\<exists>r'. room_at w' code = Some r'
          \<and> (game_status r' = ''finished'') = (evaluation r' \<noteq> None)
          \<and> ([] \<notin> set (boardToArray (board r'))
               \<and> (\<forall>p \<in> set triples. \<not> uniform (boardToArray (board r')) p) \<longrightarrow>
              game_status r' = ''finished'' \<and> evaluation r' = Some ''draw''
              \<and> winner r' = None)))"
proof -
  have inv: "\<forall>r \<in> set (game_rooms (run start evs)).
        length (board r) = 9 \<and> current_player r \<in> {''X'', ''O''}
      \<and> (game_status r = ''finished'' \<longrightarrow>
            evaluation r \<noteq> None
          \<and> (evaluation r = Some ''draw'' \<longrightarrow> winner r = None)
          \<and> (evaluation r \<noteq> Some ''draw'' \<longrightarrow> winner r = evaluation r))"
  proof
    fix r
    assume r: "r \<in> set (game_rooms (run start evs))"
    have "\<forall>r \<in> set (game_rooms start). room_ok r" by (simp add: start_def)
    then have "room_ok r" using run_ok r by blast
    then show "length (board r) = 9 \<and> current_player r \<in> {''X'', ''O''}
      \<and> (game_status r = ''finished'' \<longrightarrow>
            evaluation r \<noteq> None
          \<and> (evaluation r = Some ''draw'' \<longrightarrow> winner r = None)
          \<and> (evaluation r \<noteq> Some ''draw'' \<longrightarrow> winner r = evaluation r))"
      by (simp add: room_ok_def stored_winner_def)
  qed
  have move: "\<exists>r'. room_at w' code = Some r'
          \<and> (game_status r' = ''finished'') = (evaluation r' \<noteq> None)
          \<and> ([] \<notin> set (boardToArray (board r'))
               \<and> (\<forall>p \<in> set triples. \<not> uniform (boardToArray (board r')) p) \<longrightarrow>
              game_status r' = ''finished'' \<and> evaluation r' = Some ''draw''
              \<and> winner r' = None)"
    if a: "make_move None sid code position w = (out, w') \<and> accepted out
        \<and> room_at w code = Some room
        \<and> length (board room) = 9 \<and> current_player room \<in> {''X'', ''O''}"
  proof -
    from a have mv: "make_move None sid code position w = (out, w')" and acc: "accepted out"
      and room: "room_at w code = Some room" and len: "length (board room) = 9"
      and turn: "current_player room \<in> {''X'', ''O''}"
      by blast+
    from applied_move_room [OF mv acc room len turn] obtain r' where
      ra: "room_at w' code = Some r'" and l9: "length (boardToArray (board r')) = 9"
      and st: "(game_status r' = ''finished'') = (evaluation r' \<noteq> None)"
      and wi: "winner r' = stored_winner (evaluation r')"
      by blast
    have "game_status r' = ''finished'' \<and> evaluation r' = Some ''draw'' \<and> winner r' = None"
      if full: "[] \<notin> set (boardToArray (board r'))
          \<and> (\<forall>p \<in> set triples. \<not> uniform (boardToArray (board r')) p)"
    proof -
      from full have "checkWinner (boardToArray (board r')) = Some ''draw''"
        by (intro no_uniform_draw [OF l9]) blast+
      then have "evaluation r' = Some ''draw''"
        by (simp add: evaluation_def)
      with st wi show ?thesis by (simp add: stored_winner_def)
    qed
    with ra st show ?thesis by blast
  qed
  from inv move show ?thesis by blast
qed

theorem finished_winner_witness:
  "won_room \<in> set (game_rooms (run start won_game))
   \<and> game_status won_room = ''finished''
   \<and> evaluation won_room = Some ''X''
   \<and> winner won_room = Some ''X''
   \<and> accepted (fst (make_move None ''s1'' ''ABC123'' 8 (run start (butlast drawn_game))))
   \<and> room_at (snd (make_move None ''s1'' ''ABC123'' 8 (run start (butlast drawn_game)))) ''ABC123''
       = Some drawn_room
   \<and> [] \<notin> set (boardToArray (board drawn_room))
   \<and> game_status drawn_room = ''finished''
   \<and> evaluation drawn_room = Some ''draw''
   \<and> winner drawn_room = None"
proof -
  let ?w = "run start (butlast drawn_game)"
  let ?res = "make_move None ''s1'' ''ABC123'' 8 ?w"
  have m: "won_room \<in> set (game_rooms (run start won_game))"
    by (simp add: won_game_rooms)
  have f: "game_status won_room = ''finished''"
    by (simp add: won_room_def)
  have e: "evaluation won_room = Some ''X''"
    by code_simp
  from finished_winner [where evs = won_game] m f e
  have x: "winner won_room = Some ''X''" by fastforce
  have mv: "?res = (fst ?res, snd ?res)" by simp
  have acc: "accepted (fst ?res)" by code_simp
  have "case room_at ?w ''ABC123'' of None \<Rightarrow> False
        | Some room \<Rightarrow> length (board room) = 9 \<and> current_player room = ''X''"
    by code_simp
  then obtain room where room: "room_at ?w ''ABC123'' = Some room"
    and len: "length (board room) = 9" and turn: "current_player room \<in> {''X'', ''O''}"
    by (auto split: option.splits)
  have post: "room_at (snd ?res) ''ABC123'' = Some drawn_room" by code_simp
  have full: "[] \<notin> set (boardToArray (board drawn_room))"
    by (simp add: drawn_room_def boardToArray_def)
  have nu: "\<forall>p \<in> set triples. \<not> uniform (boardToArray (board drawn_room)) p"
    by (simp add: triples_def rows_def columns_def diagonals_def uniform_def
        drawn_room_def boardToArray_def)
  from finished_winner [where w = ?w and sid = "''s1''" and code = "''ABC123''"
      and position = 8 and out = "fst ?res" and w' = "snd ?res" and room = room]
    mv acc room len turn
  obtain r' where "room_at (snd ?res) ''ABC123'' = Some r'"
    and d: "[] \<notin> set (boardToArray (board r'))
            \<and> (\<forall>p \<in> set triples. \<not> uniform (boardToArray (board r')) p) \<longrightarrow>
           game_status r' = ''finished'' \<and> evaluation r' = Some ''draw'' \<and> winner r' = None"
    by blast
  with post have "r' = drawn_room" by simp
  with d full nu have
    "game_status drawn_room = ''finished'' \<and> evaluation drawn_room = Some ''draw''
     \<and> winner drawn_room = None"
    by blast
  with m f e x acc post full show ?thesis by blast
qed

text \<open>
  Claim C2 as stated fails: after the move that fills the last cell of the drawn game the
  room is finished, the evaluation of its board is draw, and the stored winner is null.
\<close>

theorem finished_winner_counterexample:
  "drawn_room \<in> set (game_rooms (run start drawn_game))
   \<and> game_status drawn_room = ''finished''
   \<and> evaluation drawn_room = Some ''draw''
   \<and> winner drawn_room = None
   \<and> winner drawn_room \<noteq> evaluation drawn_room"
proof -
  have "evaluation drawn_room = Some ''draw''"
    by code_simp
  then show ?thesis
    by (simp add: drawn_game_rooms) (simp add: drawn_room_def)
qed

section \<open>Joins\<close>

lemma rewrite_keeps_others:
  assumes "\<And>p. P p \<Longrightarrow> socket_id p \<noteq> sid" and "\<And>p. socket_id (f p) = socket_id p"
  shows "filter P (map (\<lambda>p. if socket_id p = sid then f p else p) ps) = filter P ps"
proof (induction ps)
  case Nil
  show ?case by simp
next
  case (Cons p ps)
  show ?case
  proof (cases "socket_id p = sid")
    case True
    then have "\<not> P p" and "\<not> P (f p)" using assms by auto
    with True Cons.IH show ?thesis by simp
  next
    case False
    with Cons.IH show ?thesis by simp
  qed
qed

lemma upsert_keeps_others:
  assumes "\<And>p. P p \<Longrightarrow> socket_id p \<noteq> sid"
  shows "filter P (upsert_player sid code mark nm ps) = filter P ps"
proof (cases "sid \<in> set (map socket_id ps)")
  case True
  then show ?thesis
    unfolding upsert_player_def using assms
    by (simp add: rewrite_keeps_others [where P = P])
next
  case False
  have "\<not> P \<lparr>socket_id = sid, p_room_code = code, symbol = mark, name = nm, connected = True\<rparr>"
    using assms by fastforce
  with False show ?thesis
    unfolding upsert_player_def by simp
qed

lemma rewrite_absent:
  "sid \<notin> set (map socket_id ps) \<Longrightarrow>
   map (\<lambda>p. if socket_id p = sid then f p else p) ps = ps"
  by (induction ps) auto

lemma filter_absent:
  "sid \<notin> set (map socket_id ps) \<Longrightarrow> filter (\<lambda>p. socket_id p = sid) ps = []"
  by (induction ps) auto

lemma upsert_own:
  assumes "distinct (map socket_id ps)"
  shows "\<exists>p. filter (\<lambda>p. socket_id p = sid) (upsert_player sid code mark nm ps) = [p]
     \<and> socket_id p = sid \<and> p_room_code p = code \<and> symbol p = mark \<and> connected p"
proof (cases "sid \<in> set (map socket_id ps)")
  case False
  then have "filter (\<lambda>p. socket_id p = sid) ps = []"
    by (rule filter_absent)
  with False show ?thesis
    unfolding upsert_player_def by simp
next
  case True
  from assms True
  have "\<exists>p. filter (\<lambda>p. socket_id p = sid)
          (map (\<lambda>p. if socket_id p = sid
                     then p\<lparr>p_room_code := code, symbol := mark, name := nm, connected := True\<rparr>
                     else p) ps) = [p]
     \<and> socket_id p = sid \<and> p_room_code p = code \<and> symbol p = mark \<and> connected p"
  proof (induction ps)
    case Nil
    then show ?case by simp
  next
    case (Cons q ps)
    show ?case
    proof (cases "socket_id q = sid")
      case True
      with Cons.prems have absent: "sid \<notin> set (map socket_id ps)" by auto
      have "filter (\<lambda>p. socket_id p = sid)
          (map (\<lambda>p. if socket_id p = sid
                     then p\<lparr>p_room_code := code, symbol := mark, name := nm, connected := True\<rparr>
                     else p) ps) = []"
        by (simp only: rewrite_absent [OF absent] filter_absent [OF absent])
      with True show ?thesis by simp
    next
      case False
      with Cons.prems have "distinct (map socket_id ps)" and "sid \<in> set (map socket_id ps)"
        by auto
      from Cons.IH [OF this] False show ?thesis by simp
    qed
  qed
  with True show ?thesis
    unfolding upsert_player_def by simp
qed

lemma upsert_distinct:
  assumes "distinct (map socket_id ps)"
  shows "distinct (map socket_id (upsert_player sid code mark nm ps))"
proof (cases "sid \<in> set (map socket_id ps)")
  case True
  have "map socket_id (map (\<lambda>p. if socket_id p = sid
                     then p\<lparr>p_room_code := code, symbol := mark, name := nm, connected := True\<rparr>
                     else p) ps) = map socket_id ps"
    by (induction ps) auto
  with assms True show ?thesis
    by (simp only: upsert_player_def if_True)
next
  case False
  with assms show ?thesis
    by (simp add: upsert_player_def)
qed

text \<open>The connected players of a room after an upsert: the joiner and the others.\<close>

lemma connected_after_upsert:
  assumes "distinct (map socket_id ps)"
  shows "length (select_connected code (upsert_player sid code mark nm ps)) =
         Suc (length (filter (\<lambda>p. socket_id p \<noteq> sid) (select_connected code ps)))"
proof -
  let ?ps' = "upsert_player sid code mark nm ps"
  let ?C = "\<lambda>p. p_room_code p = code \<and> connected p"
  from upsert_own [OF assms, of sid code mark nm] obtain p where
    own: "filter (\<lambda>p. socket_id p = sid) ?ps' = [p]" and cp: "?C p"
    by blast
  have "length (filter ?C ?ps') =
        length (filter (\<lambda>p. socket_id p = sid) (filter ?C ?ps'))
      + length (filter (\<lambda>p. \<not> socket_id p = sid) (filter ?C ?ps'))"
    by (simp only: sum_length_filter_compl)
  also have "filter (\<lambda>p. socket_id p = sid) (filter ?C ?ps') = filter ?C (filter (\<lambda>p. socket_id p = sid) ?ps')"
    by (simp add: conj_ac)
  also have "\<dots> = [p]" using own cp by simp
  also have "filter (\<lambda>p. \<not> socket_id p = sid) (filter ?C ?ps') =
             filter (\<lambda>p. socket_id p \<noteq> sid \<and> ?C p) ?ps'"
    by (simp add: conj_ac)
  also have "\<dots> = filter (\<lambda>p. socket_id p \<noteq> sid \<and> ?C p) ps"
    by (rule upsert_keeps_others) simp
  also have "\<dots> = filter (\<lambda>p. socket_id p \<noteq> sid) (filter ?C ps)"
    by (simp add: conj_ac)
  finally show ?thesis by (simp add: select_connected_def)
qed

lemma join_room_passes:
  assumes "select_room code (game_rooms w) = room # rs"
    and "length (select_connected code (players w)) < 2"
  shows "join_room None sid code nm w =
         (announce_join None sid code (joined sid code nm w), joined sid code nm w)"
  using assms unfolding join_room_def joined_def
  by (simp add: Let_def)

lemma join_room_full:
  assumes "select_room code (game_rooms w) = room # rs"
    and "length (select_connected code (players w)) \<ge> 2"
  shows "join_room None sid code nm w = ([ToSocket sid (ErrorMsg ''Room is full'')], w)"
  using assms unfolding join_room_def
  by (simp add: Let_def)

lemma players_joined:
  "players (joined sid code nm w) =
   upsert_player sid code (if select_connected code (players w) = [] then ''X'' else ''O'')
     (case nm of None \<Rightarrow> ''Anonymous'' | Some n \<Rightarrow> n) (players w)"
  by (simp add: joined_def Let_def)

lemma symbol_joined:
  assumes "distinct (map socket_id (players w))"
  shows "symbol_of (joined sid code nm w) sid =
         Some (if select_connected code (players w) = [] then ''X'' else ''O'')"
proof -
  from upsert_own [OF assms] obtain p where
    "filter (\<lambda>p. socket_id p = sid) (players (joined sid code nm w)) = [p]"
    and "symbol p = (if select_connected code (players w) = [] then ''X'' else ''O'')"
    unfolding players_joined by blast
  then show ?thesis by (simp add: symbol_of_def find_as_filter)
qed

lemma symbol_joined_other:
  assumes "sid' \<noteq> sid"
  shows "symbol_of (joined sid code nm w) sid' = symbol_of w sid'"
proof -
  have "filter (\<lambda>p. socket_id p = sid') (players (joined sid code nm w)) =
        filter (\<lambda>p. socket_id p = sid') (players w)"
    unfolding players_joined using assms by (intro upsert_keeps_others) simp
  then show ?thesis by (simp add: symbol_of_def find_as_filter)
qed

lemma socket_joined:
  "get_socket (joined sid code nm w) sid =
   \<lparr>roomCode = Some code,
    playerSymbol = Some (if select_connected code (players w) = [] then ''X'' else ''O'')\<rparr>"
  by (simp add: joined_def get_socket_def Let_def update_conv')

lemma live_joined: "live (joined sid code nm w) sid"
  by (simp add: joined_def live_def Let_def update_conv')

lemma select_room_joined:
  "select_room code (game_rooms (joined sid code nm w)) =
   map (if select_connected code (players w) = []
        then (\<lambda>r. r\<lparr>player1_id := Some sid\<rparr>)
        else (\<lambda>r. r\<lparr>player2_id := Some sid, game_status := ''playing''\<rparr>))
     (select_room code (game_rooms w))"
proof -
  have c: "\<forall>r \<in> set (select_room code (game_rooms w)). room_code r = code"
    by (simp add: select_room_def)
  show ?thesis
  proof (cases "select_connected code (players w) = []")
    case True
    have "select_room code (update_rooms code (\<lambda>r. r\<lparr>player1_id := Some sid\<rparr>) (game_rooms w))
        = map (\<lambda>r. if room_code r = code then r\<lparr>player1_id := Some sid\<rparr> else r)
            (select_room code (game_rooms w))"
      by (rule select_room_update) simp
    also have "\<dots> = map (\<lambda>r. r\<lparr>player1_id := Some sid\<rparr>) (select_room code (game_rooms w))"
      using c by (simp cong: map_cong)
    finally show ?thesis using True by (simp add: joined_def Let_def)
  next
    case False
    have "select_room code (update_rooms code
             (\<lambda>r. r\<lparr>player2_id := Some sid, game_status := ''playing''\<rparr>) (game_rooms w))
        = map (\<lambda>r. if room_code r = code
                     then r\<lparr>player2_id := Some sid, game_status := ''playing''\<rparr> else r)
            (select_room code (game_rooms w))"
      by (rule select_room_update) simp
    also have "\<dots> = map (\<lambda>r. r\<lparr>player2_id := Some sid, game_status := ''playing''\<rparr>)
                        (select_room code (game_rooms w))"
      using c by (simp cong: map_cong)
    finally show ?thesis using False by (simp add: joined_def Let_def)
  qed
qed

lemma count_joined:
  assumes "distinct (map socket_id (players w))"
  shows "length (select_connected code (players (joined sid code nm w))) =
         Suc (length (filter (\<lambda>p. socket_id p \<noteq> sid) (select_connected code (players w))))"
  unfolding players_joined by (rule connected_after_upsert [OF assms])

lemma own_row_joined:
  assumes "distinct (map socket_id (players w))"
  shows "\<exists>p \<in> set (select_connected code (players (joined sid code nm w))).
           socket_id p = sid \<and> symbol p = (if select_connected code (players w) = [] then ''X'' else ''O'')"
proof -
  from upsert_own [OF assms] obtain p where
    f: "filter (\<lambda>p. socket_id p = sid) (players (joined sid code nm w)) = [p]"
    and p: "socket_id p = sid" "p_room_code p = code" "connected p"
      "symbol p = (if select_connected code (players w) = [] then ''X'' else ''O'')"
    unfolding players_joined by blast
  from f have "p \<in> set (filter (\<lambda>p. socket_id p = sid) (players (joined sid code nm w)))"
    by simp
  then have "p \<in> set (players (joined sid code nm w))" by simp
  with p show ?thesis by (auto simp: select_connected_def)
qed

text \<open>What a join that passes its checks emits: the broadcast, then a notice for every
  connected player of the room that is live.\<close>

lemma announce_joined:
  assumes "select_room code (game_rooms w) = room # rs"
    and "distinct (map socket_id (players w))"
  shows "\<exists>t. ToSocket sid (PlayerInfo (if select_connected code (players w) = [] then ''X'' else ''O'') t)
           \<in> set (announce_join None sid code (joined sid code nm w))
         \<and> (t \<longrightarrow> map_option game_status (room_at (joined sid code nm w) code) = Some ''playing'')"
proof -
  let ?w = "joined sid code nm w"
  from own_row_joined [OF assms(2), of code sid nm] obtain p where
    p: "p \<in> set (select_connected code (players ?w))" "socket_id p = sid"
       "symbol p = (if select_connected code (players w) = [] then ''X'' else ''O'')"
    by blast
  have "select_room code (game_rooms ?w) \<noteq> []"
    unfolding select_room_joined using assms(1) by simp
  then obtain r' rs' where sel: "select_room code (game_rooms ?w) = r' # rs'"
    by (cases "select_room code (game_rooms ?w)") simp_all
  let ?F = "\<lambda>p. ToSocket (socket_id p)
                (PlayerInfo (symbol p) (symbol p = current_player r' \<and> game_status r' = ''playing''))"
  let ?ps = "filter (\<lambda>p. live ?w (socket_id p)) (select_connected code (players ?w))"
  have "\<exists>m. announce_join None sid code ?w = m # map ?F ?ps"
    by (simp add: announce_join_def sel sendPlayerInfo_None)
  then obtain m where out: "announce_join None sid code ?w = m # map ?F ?ps" by blast
  from p(1,2) live_joined [of sid code nm w] have "p \<in> set ?ps" by simp
  then have "?F p \<in> image ?F (set ?ps)" by (rule imageI)
  then have "?F p \<in> set (map ?F ?ps)" by (simp only: set_map)
  then have "?F p \<in> set (announce_join None sid code ?w)" unfolding out by simp
  then have mem: "ToSocket sid (PlayerInfo (if select_connected code (players w) = [] then ''X'' else ''O'')
                   (symbol p = current_player r' \<and> game_status r' = ''playing''))
                 \<in> set (announce_join None sid code ?w)"
    by (simp only: p(2) p(3) [symmetric])
  have st: "map_option game_status (room_at ?w code) = Some (game_status r')"
    by (simp add: room_at_select sel)
  show ?thesis
  proof (intro exI conjI impI)
    show "ToSocket sid (PlayerInfo (if select_connected code (players w) = [] then ''X'' else ''O'')
                   (symbol p = current_player r' \<and> game_status r' = ''playing''))
                 \<in> set (announce_join None sid code ?w)"
      by (rule mem)
  next
    assume "symbol p = current_player r' \<and> game_status r' = ''playing''"
    then show "map_option game_status (room_at ?w code) = Some ''playing''"
      by (simp add: st)
  qed
qed

lemma room_at_joined:
  assumes "room_at w code = Some r"
  shows "room_at (joined sid code nm w) code =
         Some (if select_connected code (players w) = []
               then r\<lparr>player1_id := Some sid\<rparr>
               else r\<lparr>player2_id := Some sid, game_status := ''playing''\<rparr>)"
proof -
  from room_at_Some [OF assms] obtain rs where "select_room code (game_rooms w) = r # rs"
    by blast
  then show ?thesis
    by (simp add: room_at_select select_room_joined)
qed

lemma distinct_joined:
  "distinct (map socket_id (players w)) \<Longrightarrow> distinct (map socket_id (players (joined sid code nm w)))"
  unfolding players_joined by (rule upsert_distinct)

lemma singleton_list:
  assumes "length xs = Suc 0" and "x \<in> set xs"
  shows "xs = [x]"
  using assms by (cases xs) auto

text \<open>
  Claim C4. In a room that is waiting and has no connected player (a fresh room), with
  the socket ids of the player rows distinct as the schema requires: the first joiner
  gets the symbol X (in its player row, on its connection and in the notice sent to it)
  and the room stays waiting; a second joiner on another connection gets O and the room
  becomes playing, the first keeping X; then two players are connected and every further
  join attempt is answered with \<^verbatim>\<open>Room is full\<close> and changes nothing.
\<close>

theorem join_sequence:
  assumes room: "room_at w code = Some r" and waiting: "game_status r = ''waiting''"
    and nobody: "select_connected code (players w) = []"
    and unique: "distinct (map socket_id (players w))"
    and other: "sid2 \<noteq> sid1"
  shows "\<exists>out1 w1 out2 w2.
       join_room None sid1 code nm1 w = (out1, w1)
     \<and> symbol_of w1 sid1 = Some ''X'' \<and> playerSymbol (get_socket w1 sid1) = Some ''X''
     \<and> ToSocket sid1 (PlayerInfo ''X'' False) \<in> set out1
     \<and> map_option game_status (room_at w1 code) = Some ''waiting''
     \<and> join_room None sid2 code nm2 w1 = (out2, w2)
     \<and> symbol_of w2 sid2 = Some ''O'' \<and> playerSymbol (get_socket w2 sid2) = Some ''O''
     \<and> (\<exists>t. ToSocket sid2 (PlayerInfo ''O'' t) \<in> set out2)
     \<and> symbol_of w2 sid1 = Some ''X''
     \<and> map_option game_status (room_at w2 code) = Some ''playing''
     \<and> length (select_connected code (players w2)) = 2
     \<and> (\<forall>sid3 nm3. join_room None sid3 code nm3 w2 =
            ([ToSocket sid3 (ErrorMsg ''Room is full'')], w2))"
proof -
  let ?w1 = "joined sid1 code nm1 w"
  let ?w2 = "joined sid2 code nm2 ?w1"
  from room_at_Some [OF room] obtain rs where sel: "select_room code (game_rooms w) = r # rs"
    by blast
  \<comment> \<open>the first join\<close>
  have j1: "join_room None sid1 code nm1 w = (announce_join None sid1 code ?w1, ?w1)"
    using sel nobody by (intro join_room_passes) simp_all
  have s1: "symbol_of ?w1 sid1 = Some ''X''"
    using symbol_joined [OF unique, of sid1 code nm1] nobody by simp
  have k1: "playerSymbol (get_socket ?w1 sid1) = Some ''X''"
    using nobody by (simp add: socket_joined)
  have r1: "room_at ?w1 code = Some (r\<lparr>player1_id := Some sid1\<rparr>)"
    using room_at_joined [OF room, of sid1 nm1] nobody by simp
  then have g1: "map_option game_status (room_at ?w1 code) = Some ''waiting''"
    using waiting by simp
  from announce_joined [OF sel unique, of sid1 nm1] nobody obtain t where
    "ToSocket sid1 (PlayerInfo ''X'' t) \<in> set (announce_join None sid1 code ?w1)"
    and "t \<longrightarrow> map_option game_status (room_at ?w1 code) = Some ''playing''"
    by auto
  with g1 have i1: "ToSocket sid1 (PlayerInfo ''X'' False) \<in> set (announce_join None sid1 code ?w1)"
    by (cases t) simp_all
  have c1: "length (select_connected code (players ?w1)) = Suc 0"
    using count_joined [OF unique, of code sid1 nm1] nobody by simp
  have u1: "distinct (map socket_id (players ?w1))"
    using unique by (rule distinct_joined)
  from own_row_joined [OF unique, of code sid1 nm1] obtain p where
    "p \<in> set (select_connected code (players ?w1))" and p: "socket_id p = sid1"
    by blast
  with c1 have l1: "select_connected code (players ?w1) = [p]"
    by (intro singleton_list)
  then have ne1: "select_connected code (players ?w1) \<noteq> []" by simp
  \<comment> \<open>the second join\<close>
  from room_at_Some [OF r1] obtain rs1 where
    sel1: "select_room code (game_rooms ?w1) = r\<lparr>player1_id := Some sid1\<rparr> # rs1"
    by blast
  have j2: "join_room None sid2 code nm2 ?w1 = (announce_join None sid2 code ?w2, ?w2)"
    using sel1 c1 by (intro join_room_passes) simp_all
  have s2: "symbol_of ?w2 sid2 = Some ''O''"
    using symbol_joined [OF u1, of sid2 code nm2] ne1 by simp
  have k2: "playerSymbol (get_socket ?w2 sid2) = Some ''O''"
    using ne1 by (simp add: socket_joined)
  have s21: "symbol_of ?w2 sid1 = Some ''X''"
    using symbol_joined_other [of sid1 sid2 code nm2 ?w1] other s1 by simp
  have r2: "room_at ?w2 code =
            Some (r\<lparr>player1_id := Some sid1, player2_id := Some sid2, game_status := ''playing''\<rparr>)"
    using room_at_joined [OF r1, of sid2 nm2] ne1 by simp
  then have g2: "map_option game_status (room_at ?w2 code) = Some ''playing''"
    by simp
  from announce_joined [OF sel1 u1, of sid2 nm2] ne1
  have i2: "\<exists>t. ToSocket sid2 (PlayerInfo ''O'' t) \<in> set (announce_join None sid2 code ?w2)"
    by auto
  have c2: "length (select_connected code (players ?w2)) = 2"
    using count_joined [OF u1, of code sid2 nm2] l1 p other by simp
  \<comment> \<open>a third join\<close>
  from room_at_Some [OF r2] obtain r2' rs2 where sel2: "select_room code (game_rooms ?w2) = r2' # rs2"
    by blast
  have j3: "join_room None sid3 code nm3 ?w2 = ([ToSocket sid3 (ErrorMsg ''Room is full'')], ?w2)"
    for sid3 nm3
    using sel2 c2 by (intro join_room_full) simp_all
  show ?thesis
    apply (rule exI [of _ "announce_join None sid1 code ?w1"], rule exI [of _ ?w1])
    apply (rule exI [of _ "announce_join None sid2 code ?w2"], rule exI [of _ ?w2])
    apply (intro conjI allI)
    apply (rule j1, rule s1, rule k1, rule i1, rule g1, rule j2, rule s2, rule k2, rule i2,
           rule s21, rule g2, rule c2, rule j3)
    done
qed

theorem join_sequence_witness:
  "room_at fresh ''ABC123'' = Some (new_room ''ABC123'')
   \<and> game_status (new_room ''ABC123'') = ''waiting''
   \<and> select_connected ''ABC123'' (players fresh) = []
   \<and> distinct (map socket_id (players fresh))
   \<and> ''s2'' \<noteq> ''s1''
   \<and> (\<exists>out1 w1 out2 w2.
       join_room None ''s1'' ''ABC123'' (Some ''Alice'') fresh = (out1, w1)
     \<and> symbol_of w1 ''s1'' = Some ''X'' \<and> playerSymbol (get_socket w1 ''s1'') = Some ''X''
     \<and> ToSocket ''s1'' (PlayerInfo ''X'' False) \<in> set out1
     \<and> map_option game_status (room_at w1 ''ABC123'') = Some ''waiting''
     \<and> join_room None ''s2'' ''ABC123'' (Some ''Bob'') w1 = (out2, w2)
     \<and> symbol_of w2 ''s2'' = Some ''O'' \<and> playerSymbol (get_socket w2 ''s2'') = Some ''O''
     \<and> (\<exists>t. ToSocket ''s2'' (PlayerInfo ''O'' t) \<in> set out2)
     \<and> symbol_of w2 ''s1'' = Some ''X''
     \<and> map_option game_status (room_at w2 ''ABC123'') = Some ''playing''
     \<and> length (select_connected ''ABC123'' (players w2)) = 2
     \<and> (\<forall>sid3 nm3. join_room None sid3 ''ABC123'' nm3 w2 =
            ([ToSocket sid3 (ErrorMsg ''Room is full'')], w2)))"
proof -
  have a: "room_at fresh ''ABC123'' = Some (new_room ''ABC123'')" by code_simp
  have b: "game_status (new_room ''ABC123'') = ''waiting''" by (simp add: new_room_def)
  have c: "select_connected ''ABC123'' (players fresh) = []" by code_simp
  have d: "distinct (map socket_id (players fresh))" by code_simp
  have e: "''s2'' \<noteq> ''s1''" by simp
  from join_sequence [OF a b c d e, of "Some ''Alice''" "Some ''Bob''"] a b c d e
  show ?thesis by blast
qed

section \<open>Symbols\<close>













section \<open>Room creation\<close>

lemma generate_unique_outcome:
  assumes "k < 10"
  shows "generate_unique None gen rooms k =
     (case find (\<lambda>i. select_room (gen i) rooms = []) [k..<10] of
        Some i \<Rightarrow> Some (gen i, i + 1)
      | None \<Rightarrow> Some (gen 9, 10))"
  using assms
proof (induction "10 - k" arbitrary: k)
  case 0
  then show ?case by simp
next
  case (Suc n)
  then have up: "[k..<10] = k # [Suc k..<10]" by (simp add: upt_conv_Cons)
  show ?case
  proof (cases "select_room (gen k) rooms = []")
    case True
    then show ?thesis
      by (subst generate_unique.simps) (simp add: up)
  next
    case False
    show ?thesis
    proof (cases "k + 1 < 10")
      case True
      with Suc have "n = 10 - (k + 1)" by simp
      from Suc.hyps(1) [OF this True] False True show ?thesis
        by (subst generate_unique.simps) (simp add: up)
    next
      case last: False
      with Suc.prems have "k = 9" by simp
      with False show ?thesis
        by (subst generate_unique.simps) (simp add: up)
    qed
  qed
qed

lemma find_snoc:
  "find P (xs @ [x]) = (case find P xs of Some y \<Rightarrow> Some y | None \<Rightarrow> if P x then Some x else None)"
  by (induction xs) simp_all

lemma find_last_free:
  "find P [0..<10] = (case find P [0..<9] of Some i \<Rightarrow> Some i | None \<Rightarrow> if P 9 then Some 9 else None)"
proof -
  have "[0..<10] = [0..<9] @ [9::nat]" by (simp add: upt_rec)
  then show ?thesis by (simp only: find_snoc)
qed

lemma find_bound: "find P [0..<n] = Some i \<Longrightarrow> i < n \<and> P i"
  by (auto simp: find_Some_iff)

text \<open>
  What the handler answers when the datastore answers: the room is created with the first
  of the first nine candidates that no room has; when those nine all collide the answer
  is the exhaustion error, whatever the tenth candidate is.
\<close>

lemma create_room_outcome:
  "create_room None gen w =
     (case find (\<lambda>i. select_room (gen i) (game_rooms w) = []) [0..<9] of
        Some i \<Rightarrow> (Created (gen i), w\<lparr>game_rooms := game_rooms w @ [new_room (gen i)]\<rparr>)
      | None \<Rightarrow> (Failure 500 ''Unable to generate unique room code'', w))"
proof (cases "find (\<lambda>i. select_room (gen i) (game_rooms w) = []) [0..<9]")
  case None
  then show ?thesis
    by (simp add: create_room_def generate_unique_outcome find_last_free)
next
  case (Some i)
  from find_bound [OF this] have "i < 9" and "select_room (gen i) (game_rooms w) = []"
    by simp_all
  with Some show ?thesis
    by (simp add: create_room_def generate_unique_outcome find_last_free)
qed

text \<open>
  Claim C5 at its failing input. Nine rooms exist; the first nine candidates collide with
  them and the tenth does not collide with any room, yet the handler answers
  \<^verbatim>\<open>Unable to generate unique room code\<close> and stores nothing: after the loop
  \<^verbatim>\<open>attempts >= 10\<close> also holds when the tenth attempt left the loop through
  \<^verbatim>\<open>break\<close>.
\<close>

theorem tenth_attempt_rejected:
  "map room_code (game_rooms crowded) = taken
   \<and> map colliding [0, 1, 2, 3, 4, 5, 6, 7, 8] = taken
   \<and> colliding 9 = ''AAAAA9''
   \<and> select_room (colliding 9) (game_rooms crowded) = []
   \<and> create_room None colliding crowded =
        (Failure 500 ''Unable to generate unique room code'', crowded)"
  by code_simp

section \<open>Disconnects and the cleanup timer\<close>

lemma select_connected_disconnect:
  "select_connected code (map (\<lambda>p. if socket_id p = sid then p\<lparr>connected := False\<rparr> else p) ps) =
   filter (\<lambda>p. socket_id p \<noteq> sid) (select_connected code ps)"
  by (induction ps) (auto simp: select_connected_def)

lemma disconnect_bound:
  assumes "roomCode (get_socket w sid) = Some code" and "code \<noteq> []"
  shows "disconnect None sid w =
     ([ToOthers code sid (PlayerDisconnected sid (playerSymbol (get_socket w sid)))],
      w\<lparr>sockets := AList.delete sid (sockets w),
        players := map (\<lambda>p. if socket_id p = sid then p\<lparr>connected := False\<rparr> else p) (players w),
        timers := timers w @ [code]\<rparr>)"
  using assms unfolding disconnect_def by (simp add: Let_def)

lemma cleanup_empty:
  assumes "select_connected code (players w) = []"
  shows "cleanup None code w =
         w\<lparr>players := filter (\<lambda>p. p_room_code p \<noteq> code) (players w),
           game_rooms := filter (\<lambda>r. room_code r \<noteq> code) (game_rooms w)\<rparr>"
  using assms unfolding cleanup_def by (simp add: Let_def)

lemma cleanup_occupied:
  assumes "select_connected code (players w) \<noteq> []"
  shows "cleanup None code w = w"
  using assms unfolding cleanup_def by (simp add: Let_def)

lemma cleanup_gone:
  assumes "select_connected code (players w) = []"
  shows "select_room code (game_rooms (cleanup None code w)) = []
     \<and> (\<forall>p \<in> set (players (cleanup None code w)). p_room_code p \<noteq> code)
     \<and> get_room None code (cleanup None code w) = Failure 404 ''Room not found''"
  by (simp add: cleanup_empty [OF assms] select_room_def get_room_def)

text \<open>
  Claim C9. The timer callback queries the connected players when it runs: if the room
  then has none, the room row and all player rows of the room are deleted and a lookup of
  the code answers \<^verbatim>\<open>Room not found\<close>; if a player is connected at that moment,
  nothing is deleted. When the connected players of a room are on two connections bound
  to it, both disconnect, and then the timer fires with no join in between, the timer is
  pending after the disconnects, and after it fires the room and its player rows are gone
  and the lookup answers \<^verbatim>\<open>Room not found\<close>. The five minutes of the timer are not
  modelled: its firing is an event.
\<close>

theorem cleanup_after_grace:
  "(select_connected code (players w) = [] \<longrightarrow>
       select_room code (game_rooms (cleanup None code w)) = []
     \<and> (\<forall>p \<in> set (players (cleanup None code w)). p_room_code p \<noteq> code)
     \<and> get_room None code (cleanup None code w) = Failure 404 ''Room not found'')
   \<and> (select_connected code (players w) \<noteq> [] \<longrightarrow> cleanup None code w = w)
   \<and> ((\<forall>p \<in> set (select_connected code (players w)). socket_id p \<in> {sid1, sid2})
        \<and> roomCode (get_socket w sid1) = Some code \<and> roomCode (get_socket w sid2) = Some code
        \<and> code \<noteq> [] \<and> sid1 \<noteq> sid2 \<longrightarrow>
       code \<in> set (timers (run w [Disconnect None sid1, Disconnect None sid2]))
     \<and> select_room code
          (game_rooms (run w [Disconnect None sid1, Disconnect None sid2, TimerFires None code])) = []
     \<and> (\<forall>p \<in> set (players (run w [Disconnect None sid1, Disconnect None sid2, TimerFires None code])).
           p_room_code p \<noteq> code)
     \<and> get_room None code (run w [Disconnect None sid1, Disconnect None sid2, TimerFires None code])
         = Failure 404 ''Room not found'')"
proof (intro conjI impI)
  assume "select_connected code (players w) = []"
  then show "select_room code (game_rooms (cleanup None code w)) = []"
    and "\<forall>p \<in> set (players (cleanup None code w)). p_room_code p \<noteq> code"
    and "get_room None code (cleanup None code w) = Failure 404 ''Room not found''"
    using cleanup_gone by blast+
next
  assume "select_connected code (players w) \<noteq> []"
  then show "cleanup None code w = w" by (rule cleanup_occupied)
next
  assume a: "(\<forall>p \<in> set (select_connected code (players w)). socket_id p \<in> {sid1, sid2})
        \<and> roomCode (get_socket w sid1) = Some code \<and> roomCode (get_socket w sid2) = Some code
        \<and> code \<noteq> [] \<and> sid1 \<noteq> sid2"
  let ?off = "\<lambda>sid p. if socket_id p = sid then p\<lparr>connected := False\<rparr> else p"
  let ?w1 = "w\<lparr>sockets := AList.delete sid1 (sockets w),
        players := map (?off sid1) (players w),
        timers := timers w @ [code]\<rparr>"
  let ?w2 = "?w1\<lparr>sockets := AList.delete sid2 (sockets ?w1),
        players := map (?off sid2) (players ?w1),
        timers := timers ?w1 @ [code]\<rparr>"
  from a have d1: "snd (disconnect None sid1 w) = ?w1"
    by (simp add: disconnect_bound)
  from a have ne: "sid2 \<noteq> sid1" by auto
  from a have "roomCode (get_socket w sid2) = Some code" by simp
  with ne have "roomCode (get_socket ?w1 sid2) = Some code"
    by (simp add: get_socket_def delete_conv')
  with a have d2: "snd (disconnect None sid2 ?w1) = ?w2"
    by (simp add: disconnect_bound)
  have r2: "run w [Disconnect None sid1, Disconnect None sid2] = ?w2"
    by (simp add: run_def d1 d2)
  have "players ?w2 = map (?off sid2) (map (?off sid1) (players w))"
    by simp
  then have "select_connected code (players ?w2) =
        filter (\<lambda>p. socket_id p \<noteq> sid2) (filter (\<lambda>p. socket_id p \<noteq> sid1) (select_connected code (players w)))"
    by (simp only: select_connected_disconnect)
  also have "\<dots> = []" using a by (auto simp: filter_empty_conv)
  finally have none: "select_connected code (players ?w2) = []" .
  let ?w2' = "?w2\<lparr>timers := remove1 code (timers ?w2)\<rparr>"
  have none': "select_connected code (players ?w2') = []" using none by simp
  have r3: "run w [Disconnect None sid1, Disconnect None sid2, TimerFires None code] =
            cleanup None code ?w2'"
    using r2 by (simp add: run_def)
  show "code \<in> set (timers (run w [Disconnect None sid1, Disconnect None sid2]))"
    unfolding r2 by simp
  show "select_room code
          (game_rooms (run w [Disconnect None sid1, Disconnect None sid2, TimerFires None code])) = []"
    unfolding r3 using cleanup_gone [OF none'] by blast
  show "\<forall>p \<in> set (players (run w [Disconnect None sid1, Disconnect None sid2, TimerFires None code])).
           p_room_code p \<noteq> code"
    unfolding r3 using cleanup_gone [OF none'] by blast
  show "get_room None code (run w [Disconnect None sid1, Disconnect None sid2, TimerFires None code])
         = Failure 404 ''Room not found''"
    unfolding r3 using cleanup_gone [OF none'] by blast
qed

theorem cleanup_after_grace_witness:
  "map socket_id (select_connected ''ABC123'' (players after_joins)) = [''s1'', ''s2'']
   \<and> roomCode (get_socket after_joins ''s1'') = Some ''ABC123''
   \<and> roomCode (get_socket after_joins ''s2'') = Some ''ABC123''
   \<and> get_room None ''ABC123'' after_joins \<noteq> Failure 404 ''Room not found''
   \<and> get_room None ''ABC123''
        (run after_joins [Disconnect None ''s1'', Disconnect None ''s2'', TimerFires None ''ABC123''])
       = Failure 404 ''Room not found''
   \<and> select_connected ''ABC123'' (players (run after_joins [Disconnect None ''s1''])) \<noteq> []
   \<and> cleanup None ''ABC123'' (run after_joins [Disconnect None ''s1''])
       = run after_joins [Disconnect None ''s1'']"
proof -
  have h: "(\<forall>p \<in> set (select_connected ''ABC123'' (players after_joins)). socket_id p \<in> {''s1'', ''s2''})
   \<and> roomCode (get_socket after_joins ''s1'') = Some ''ABC123''
   \<and> roomCode (get_socket after_joins ''s2'') = Some ''ABC123''
   \<and> ''ABC123'' \<noteq> [] \<and> ''s1'' \<noteq> ''s2''"
    by code_simp
  have b: "get_room None ''ABC123'' after_joins \<noteq> Failure 404 ''Room not found''"
    by code_simp
  have o: "select_connected ''ABC123'' (players (run after_joins [Disconnect None ''s1''])) \<noteq> []"
    by code_simp
  from cleanup_after_grace [of "''ABC123''" after_joins "''s1''" "''s2''"] h
  have 1: "get_room None ''ABC123''
        (run after_joins [Disconnect None ''s1'', Disconnect None ''s2'', TimerFires None ''ABC123''])
       = Failure 404 ''Room not found''"
    by blast
  from cleanup_after_grace [of "''ABC123''" "run after_joins [Disconnect None ''s1'']" "''s1''" "''s2''"] o
  have 2: "cleanup None ''ABC123'' (run after_joins [Disconnect None ''s1''])
       = run after_joins [Disconnect None ''s1'']"
    by blast
  have c: "map socket_id (select_connected ''ABC123'' (players after_joins)) = [''s1'', ''s2'']"
    by code_simp
  from c h b o 1 2 show ?thesis by blast
qed

section \<open>Datastore failures\<close>






















end
